theory Spec2Isabelle
  imports Complex_Main
begin

section \<open>Pieces (src/js/pieces.js)\<close>

text \<open>
  The seven keys of the \<open>PIECES\<close> table. The source uses the strings \<open>'I'\<close>, \<open>'O'\<close>,
  \<open>'T'\<close>, \<open>'S'\<close>, \<open>'Z'\<close>, \<open>'J'\<close>, \<open>'L'\<close>; a key outside the table makes the constructor
  raise, so the type has exactly the seven keys.
\<close>

datatype piece_type = TypeI | TypeO | TypeT | TypeS | TypeZ | TypeJ | TypeL

text \<open>
  An entry of a mask is a JavaScript number. Reading a row past its end gives
  \<open>undefined\<close>, which \<open>rotate\<close> would store into the new mask, so the entries have
  that value too.
\<close>

datatype entry = Num int | Undefined

fun truthy :: "entry \<Rightarrow> bool" where
  "truthy (Num n) = (n \<noteq> 0)"
| "truthy Undefined = False"

definition mask_of :: "int list list \<Rightarrow> entry list list" where
  "mask_of rows = map (map Num) rows"

fun PIECES_shape :: "piece_type \<Rightarrow> entry list list" where
  "PIECES_shape TypeI = mask_of [[0, 0, 0, 0], [1, 1, 1, 1], [0, 0, 0, 0], [0, 0, 0, 0]]"
| "PIECES_shape TypeO = mask_of [[0, 1, 1, 0], [0, 1, 1, 0], [0, 0, 0, 0], [0, 0, 0, 0]]"
| "PIECES_shape TypeT = mask_of [[0, 1, 0, 0], [1, 1, 1, 0], [0, 0, 0, 0], [0, 0, 0, 0]]"
| "PIECES_shape TypeS = mask_of [[0, 1, 1, 0], [1, 1, 0, 0], [0, 0, 0, 0], [0, 0, 0, 0]]"
| "PIECES_shape TypeZ = mask_of [[1, 1, 0, 0], [0, 1, 1, 0], [0, 0, 0, 0], [0, 0, 0, 0]]"
| "PIECES_shape TypeJ = mask_of [[1, 0, 0, 0], [1, 1, 1, 0], [0, 0, 0, 0], [0, 0, 0, 0]]"
| "PIECES_shape TypeL = mask_of [[0, 0, 1, 0], [1, 1, 1, 0], [0, 0, 0, 0], [0, 0, 0, 0]]"

fun PIECES_color :: "piece_type \<Rightarrow> string" where
  "PIECES_color TypeI = ''#00ffff''"
| "PIECES_color TypeO = ''#ffff00''"
| "PIECES_color TypeT = ''#aa00ff''"
| "PIECES_color TypeS = ''#00ff00''"
| "PIECES_color TypeZ = ''#ff0000''"
| "PIECES_color TypeJ = ''#0000ff''"
| "PIECES_color TypeL = ''#ff7f00''"

fun PIECES_spawn :: "piece_type \<Rightarrow> int \<times> int" where
  "PIECES_spawn TypeO = (4, 0)"
| "PIECES_spawn t = (3, 0)"

text \<open>
  The fields of a \<open>Piece\<close>. The source's \<open>x\<close> and \<open>y\<close> are \<open>piece_x\<close> and \<open>piece_y\<close>
  here; positions are integers (every position the game computes is one).
\<close>

record piece =
  type :: piece_type
  shape :: "entry list list"
  color :: string
  piece_x :: int
  piece_y :: int
  rotation :: nat

text \<open>The constructor; an argument left out (\<open>undefined\<close>) is \<open>None\<close>.\<close>

definition new_Piece :: "piece_type \<Rightarrow> int option \<Rightarrow> int option \<Rightarrow> piece" where
  "new_Piece t ox oy =
     \<lparr> type = t,
       shape = PIECES_shape t,
       color = PIECES_color t,
       piece_x = (case ox of Some v \<Rightarrow> v | None \<Rightarrow> fst (PIECES_spawn t)),
       piece_y = (case oy of Some v \<Rightarrow> v | None \<Rightarrow> snd (PIECES_spawn t)),
       rotation = 0 \<rparr>"

text \<open>\<open>row[x]\<close>: the entry, or \<open>undefined\<close> past the end of the row.\<close>

definition entry_at :: "entry list \<Rightarrow> nat \<Rightarrow> entry" where
  "entry_at row k = (if k < length row then row ! k else Undefined)"

text \<open>
  \<open>Piece.rotate\<close>, named \<open>piece_rotate\<close> here (\<open>rotate\<close> is a list function of HOL). It
  fills a \<open>size \<times> size\<close> array with \<open>rotated[x][size - 1 - y] = shape[y][x]\<close>
  for all \<open>x, y < size\<close>: row \<open>i\<close>, column \<open>j\<close> of the result is \<open>shape[size - 1 - j][i]\<close>.
  Every slot is written exactly once, and \<open>size - 1 - j\<close> is a row of the mask.
\<close>

definition rotate_shape :: "entry list list \<Rightarrow> entry list list" where
  "rotate_shape s =
     (let size = length s
      in map (\<lambda>i. map (\<lambda>j. entry_at (s ! (size - 1 - j)) i) [0..<size]) [0..<size])"

definition piece_rotate :: "piece \<Rightarrow> piece" where
  "piece_rotate p = p\<lparr> shape := rotate_shape (shape p), rotation := (rotation p + 1) mod 4 \<rparr>"

text \<open>\<open>copy\<close> goes through the constructor, so the colour is the table's.\<close>

definition copy :: "piece \<Rightarrow> piece" where
  "copy p = (new_Piece (type p) (Some (piece_x p)) (Some (piece_y p)))
              \<lparr> shape := shape p, rotation := rotation p \<rparr>"

text \<open>
  \<open>getOccupiedPositions\<close>: the two nested loops, rows outside, pushing \<open>{x, y}\<close> for every
  truthy entry. A position is the pair \<open>(x, y)\<close>.
\<close>

definition getOccupiedPositions :: "piece \<Rightarrow> (int \<times> int) list" where
  "getOccupiedPositions p =
     [(piece_x p + int xx, piece_y p + int yy).
        yy \<leftarrow> [0..<length (shape p)],
        xx \<leftarrow> [0..<length (shape p ! yy)],
        truthy (shape p ! yy ! xx)]"

section \<open>Board (the \<open>GameBoard\<close> class)\<close>

text \<open>
  A cell is \<open>null\<close> (\<open>None\<close>) or a colour string. The result of a board operation is
  \<open>Inr\<close> of its value, or \<open>Inl\<close> of the reason why the run does not complete inside the
  model: \<open>TypeError\<close> where the source raises it (a property read on \<open>undefined\<close> or
  \<open>null\<close>), \<open>SparseRow\<close> where an assignment past the end of a row would leave holes
  in the array, \<open>NotANumber\<close> where a number of the source becomes \<open>NaN\<close>.
\<close>

type_synonym cell = "string option"

datatype fault = TypeError | SparseRow | NotANumber

record board =
  width :: nat
  height :: nat
  grid :: "cell list list"
  linesToFlash :: "nat list"

definition new_GameBoard :: "nat \<Rightarrow> nat \<Rightarrow> board" where
  "new_GameBoard w h =
     \<lparr> width = w, height = h, grid = replicate h (replicate w None), linesToFlash = [] \<rparr>"

text \<open>
  The truth value of \<open>row[x]\<close> as a condition: \<open>undefined\<close> (past the end), \<open>null\<close> and
  the empty string are falsy.
\<close>

definition cell_truthy :: "cell list \<Rightarrow> nat \<Rightarrow> bool" where
  "cell_truthy row k =
     (k < length row \<and> (case row ! k of None \<Rightarrow> False | Some c \<Rightarrow> c \<noteq> []))"

text \<open>
  The loop of \<open>canPlacePiece\<close> over the positions, with its two early returns.
  \<open>this.grid[newY]\<close> is read only for \<open>0 \<le> newY < height\<close>; where the grid has no
  such row the read of \<open>[newX]\<close> raises.
\<close>

fun canPlaceLoop :: "board \<Rightarrow> (int \<times> int) list \<Rightarrow> int \<Rightarrow> int \<Rightarrow> fault + bool" where
  "canPlaceLoop b [] offsetX offsetY = Inr True"
| "canPlaceLoop b (pos # rest) offsetX offsetY =
     (let newX = fst pos + offsetX; newY = snd pos + offsetY
      in if newX < 0 \<or> newX \<ge> int (width b) \<or> newY \<ge> int (height b) then Inr False
         else if newY \<ge> 0 then
           (if nat newY < length (grid b) then
              (if cell_truthy (grid b ! nat newY) (nat newX) then Inr False
               else canPlaceLoop b rest offsetX offsetY)
            else Inl TypeError)
         else canPlaceLoop b rest offsetX offsetY)"

definition canPlacePiece :: "board \<Rightarrow> piece \<Rightarrow> int \<Rightarrow> int \<Rightarrow> fault + bool" where
  "canPlacePiece b p offsetX offsetY = canPlaceLoop b (getOccupiedPositions p) offsetX offsetY"

text \<open>
  \<open>placePiece\<close>: \<open>this.grid[pos.y][pos.x] = piece.color\<close> for the positions inside the
  board. A write at the end of a row appends; a write further out would leave holes.
\<close>

fun placeLoop :: "board \<Rightarrow> string \<Rightarrow> (int \<times> int) list \<Rightarrow> fault + board" where
  "placeLoop b c [] = Inr b"
| "placeLoop b c (pos # rest) =
     (let posX = fst pos; posY = snd pos
      in if posY \<ge> 0 \<and> posY < int (height b) \<and> posX \<ge> 0 \<and> posX < int (width b) then
           (if nat posY < length (grid b) then
              (let row = grid b ! nat posY
               in if nat posX < length row then
                    placeLoop (b\<lparr> grid := (grid b)[nat posY := row[nat posX := Some c]] \<rparr>) c rest
                  else if nat posX = length row then
                    placeLoop (b\<lparr> grid := (grid b)[nat posY := row @ [Some c]] \<rparr>) c rest
                  else Inl SparseRow)
            else Inl TypeError)
         else placeLoop b c rest)"

definition placePiece :: "board \<Rightarrow> piece \<Rightarrow> fault + board" where
  "placePiece b p = placeLoop b (color p) (getOccupiedPositions p)"

text \<open>\<open>row.every(cell => cell !== null)\<close>\<close>

definition row_complete :: "cell list \<Rightarrow> bool" where
  "row_complete row = list_all (\<lambda>cell. cell \<noteq> None) row"

text \<open>
  One step of the \<open>forEach\<close> of \<open>clearLines\<close>: \<open>splice(lineY, 1)\<close>, which removes
  nothing when \<open>lineY\<close> is past the end, then \<open>unshift\<close> of a row of \<open>width\<close> nulls.
\<close>

definition removeLine :: "nat \<Rightarrow> nat \<Rightarrow> cell list list \<Rightarrow> cell list list" where
  "removeLine w lineY g = replicate w None # (take lineY g @ drop (Suc lineY) g)"

text \<open>
  \<open>clearLines\<close> returns the count and leaves the board changed. The first loop reads
  \<open>this.grid[y]\<close> for every \<open>y < height\<close> before anything is written, and raises at the
  first \<open>y\<close> that is not a row of the grid.
\<close>

definition completedLines :: "board \<Rightarrow> nat list" where
  "completedLines b = filter (\<lambda>y. row_complete (grid b ! y)) [0..<height b]"

definition clearLines :: "board \<Rightarrow> fault + (nat \<times> board)" where
  "clearLines b =
     (if length (grid b) < height b then Inl TypeError
      else if length (completedLines b) = 0 then Inr (0, b)
      else Inr (length (completedLines b),
                b\<lparr> linesToFlash := completedLines b,
                   grid := fold (removeLine (width b)) (completedLines b) (grid b) \<rparr>))"

definition clearFlashingLines :: "board \<Rightarrow> board" where
  "clearFlashingLines b = b\<lparr> linesToFlash := [] \<rparr>"

text \<open>The board's \<open>isGameOver\<close>: \<open>this.grid[0].some(cell => cell !== null)\<close>.\<close>

definition board_isGameOver :: "board \<Rightarrow> fault + bool" where
  "board_isGameOver b =
     (case grid b of [] \<Rightarrow> Inl TypeError | row # _ \<Rightarrow> Inr (list_ex (\<lambda>cell. cell \<noteq> None) row))"

text \<open>
  The \<open>while\<close> loop of \<open>getDropPosition\<close>. It need not end (a piece with no truthy entry
  can be placed at every offset), so the result is an \<open>option\<close>: \<open>None\<close> is the run
  that never returns.
\<close>

partial_function (option) dropLoop :: "board \<Rightarrow> piece \<Rightarrow> int \<Rightarrow> (fault + int) option" where
  "dropLoop b p dropY =
     (case canPlacePiece b p 0 (dropY - piece_y p + 1) of
        Inl e \<Rightarrow> Some (Inl e)
      | Inr fits \<Rightarrow> if fits then dropLoop b p (dropY + 1) else Some (Inr dropY))"

definition getDropPosition :: "board \<Rightarrow> piece \<Rightarrow> (fault + int) option" where
  "getDropPosition b p = dropLoop b p (piece_y p)"

definition reset :: "board \<Rightarrow> board" where
  "reset b = b\<lparr> grid := replicate (height b) (replicate (width b) None), linesToFlash := [] \<rparr>"

text \<open>
  What every board of the program satisfies: the constructor and \<open>reset\<close> build
  \<open>height\<close> rows of \<open>width\<close> cells, and the only colours written are those of the
  \<open>PIECES\<close> table, none of which is the empty string.
\<close>

definition wf_board :: "board \<Rightarrow> bool" where
  "wf_board b =
     (length (grid b) = height b \<and>
      list_all (\<lambda>row. length row = width b \<and> list_all (\<lambda>cell. cell \<noteq> Some []) row) (grid b))"

section \<open>Wall kicks (\<open>Piece.getWallKickOffsets\<close>)\<close>

text \<open>
  The two tables of \<open>wallKickData\<close>. The source's key is the string \<open>from->to\<close> built
  from the two rotation numbers; the pair \<open>(from, to)\<close> stands for it. The entries of a
  row keep the source's order, each offset being \<open>(dx, dy)\<close>.
\<close>

definition wallKickData_I :: "((nat \<times> nat) \<times> (int \<times> int) list) list" where
  "wallKickData_I =
     [((0, 1), [(-2, 0), (1, 0), (-2, -1), (1, 2)]),
      ((1, 0), [(2, 0), (-1, 0), (2, 1), (-1, -2)]),
      ((1, 2), [(-1, 0), (2, 0), (-1, 2), (2, -1)]),
      ((2, 1), [(1, 0), (-2, 0), (1, -2), (-2, 1)]),
      ((2, 3), [(2, 0), (-1, 0), (2, 1), (-1, -2)]),
      ((3, 2), [(-2, 0), (1, 0), (-2, -1), (1, 2)]),
      ((3, 0), [(1, 0), (-2, 0), (1, -2), (-2, 1)]),
      ((0, 3), [(-1, 0), (2, 0), (-1, 2), (2, -1)])]"

definition wallKickData_JLSTZ :: "((nat \<times> nat) \<times> (int \<times> int) list) list" where
  "wallKickData_JLSTZ =
     [((0, 1), [(-1, 0), (-1, 1), (0, -2), (-1, -2)]),
      ((1, 0), [(1, 0), (1, -1), (0, 2), (1, 2)]),
      ((1, 2), [(1, 0), (1, -1), (0, 2), (1, 2)]),
      ((2, 1), [(-1, 0), (-1, 1), (0, -2), (-1, -2)]),
      ((2, 3), [(1, 0), (1, 1), (0, -2), (1, -2)]),
      ((3, 2), [(-1, 0), (-1, -1), (0, 2), (-1, 2)]),
      ((3, 0), [(-1, 0), (-1, -1), (0, 2), (-1, 2)]),
      ((0, 3), [(1, 0), (1, 1), (0, -2), (1, -2)])]"

definition getWallKickOffsets :: "piece \<Rightarrow> nat \<Rightarrow> nat \<Rightarrow> (int \<times> int) list" where
  "getWallKickOffsets p fromRotation toRotation =
     (if type p = TypeI then
        (case map_of wallKickData_I (fromRotation, toRotation) of
           Some offsets \<Rightarrow> offsets | None \<Rightarrow> [(0, 0)])
      else if type p \<noteq> TypeO then
        (case map_of wallKickData_JLSTZ (fromRotation, toRotation) of
           Some offsets \<Rightarrow> offsets | None \<Rightarrow> [(0, 0)])
      else [(0, 0)])"

section \<open>Game (src/js/tetris.js)\<close>

text \<open>
  The fields of \<open>TetrisGame\<close> that the game logic reads and writes. The renderer, the
  input handler, the page elements, \<open>lastTime\<close> and \<open>animationId\<close> are the environment
  and are left out; \<open>updateUI\<close> and \<open>render\<close> only write to them. Times are in
  milliseconds. The source computes them in floating point; the model keeps the exact
  quotient.
\<close>

record game =
  board :: board
  currentPiece :: "piece option"
  nextPiece :: "piece option"
  isRunning :: bool
  isPaused :: bool
  isGameOver :: bool
  score :: int
  lines :: int
  level :: int
  combo :: int
  dropTimer :: rat
  dropInterval :: rat
  lockTimer :: rat
  lockDelay :: rat
  isLocking :: bool
  lineFlashTimer :: rat
  lineFlashDuration :: rat

text \<open>Sequencing of steps that may not complete.\<close>

definition and_then :: "fault + 'a \<Rightarrow> ('a \<Rightarrow> fault + 'b) \<Rightarrow> fault + 'b" where
  "and_then m f = (case m of Inl e \<Rightarrow> Inl e | Inr v \<Rightarrow> f v)"

definition getLevelDropInterval :: "game \<Rightarrow> rat" where
  "getLevelDropInterval g =
     (let frames = max 1 (48 - (level g - 1) * 5)
      in (of_int frames / 60) * 1000)"

text \<open>
  \<open>generateNextPiece\<close> draws a type with \<open>Math.random\<close>; the draw is the argument
  \<open>randomType\<close>.
\<close>

definition generateNextPiece :: "piece_type \<Rightarrow> game \<Rightarrow> game" where
  "generateNextPiece randomType g = g\<lparr> nextPiece := Some (new_Piece randomType None None) \<rparr>"

definition spawnNewPiece :: "piece_type \<Rightarrow> game \<Rightarrow> game" where
  "spawnNewPiece randomType g = generateNextPiece randomType (g\<lparr> currentPiece := nextPiece g \<rparr>)"

text \<open>The constructor, with its two draws: \<open>generateNextPiece\<close>, then \<open>spawnNewPiece\<close>.\<close>

definition new_TetrisGame :: "piece_type \<Rightarrow> piece_type \<Rightarrow> game" where
  "new_TetrisGame random1 random2 =
     (let g = \<lparr> board = new_GameBoard 10 20,
                currentPiece = None, nextPiece = None,
                isRunning = False, isPaused = False, isGameOver = False,
                score = 0, lines = 0, level = 1, combo = 0,
                dropTimer = 0, dropInterval = 0,
                lockTimer = 0, lockDelay = 500, isLocking = False,
                lineFlashTimer = 0, lineFlashDuration = 300 \<rparr>;
          g = g\<lparr> dropInterval := getLevelDropInterval g \<rparr>
      in spawnNewPiece random2 (generateNextPiece random1 g))"

definition restart :: "piece_type \<Rightarrow> piece_type \<Rightarrow> game \<Rightarrow> game" where
  "restart random1 random2 g =
     (let g = g\<lparr> isRunning := False, isPaused := False, isGameOver := False,
                board := reset (board g),
                score := 0, lines := 0, level := 1, combo := 0,
                dropTimer := 0, lockTimer := 0, isLocking := False, lineFlashTimer := 0 \<rparr>;
          g = g\<lparr> dropInterval := getLevelDropInterval g \<rparr>
      in spawnNewPiece random2 (generateNextPiece random1 g))"

definition startLocking :: "game \<Rightarrow> game" where
  "startLocking g = (if \<not> isLocking g then g\<lparr> isLocking := True, lockTimer := lockDelay g \<rparr> else g)"

definition resetLockTimer :: "game \<Rightarrow> game" where
  "resetLockTimer g = g\<lparr> isLocking := False, lockTimer := 0 \<rparr>"

definition gameOver :: "game \<Rightarrow> game" where
  "gameOver g = g\<lparr> isGameOver := True, isRunning := False \<rparr>"

text \<open>
  \<open>handleLinesCleared\<close>. \<open>baseScores[linesCleared]\<close> is \<open>undefined\<close> past the fifth entry
  and the score would become \<open>NaN\<close>.
\<close>

definition baseScores :: "int list" where
  "baseScores = [0, 40, 100, 300, 1200]"

definition handleLinesCleared :: "nat \<Rightarrow> game \<Rightarrow> fault + game" where
  "handleLinesCleared linesCleared g =
     (let g = g\<lparr> lines := lines g + int linesCleared \<rparr>;
          g = g\<lparr> combo := combo g + 1 \<rparr>
      in if linesCleared < length baseScores then
           (let lineScore = baseScores ! linesCleared * level g;
                lineScore = (if combo g > 1 then lineScore + 50 * combo g * level g else lineScore);
                g = g\<lparr> score := score g + lineScore \<rparr>;
                newLevel = lines g div 10 + 1
            in if newLevel > level g then
                 (let g = g\<lparr> level := newLevel \<rparr>
                  in Inr (g\<lparr> dropInterval := getLevelDropInterval g \<rparr>))
               else Inr g)
         else Inl NotANumber)"

text \<open>
  \<open>lockPiece\<close>. After the spawn the new current piece is read by \<open>canPlacePiece\<close> only
  when the board does not report the top row occupied (\<open>||\<close> short-circuits).
\<close>

definition lockPiece :: "piece_type \<Rightarrow> game \<Rightarrow> fault + game" where
  "lockPiece randomType g =
     (case currentPiece g of
        None \<Rightarrow> Inr g
      | Some cp \<Rightarrow>
          and_then (placePiece (board g) cp) (\<lambda>placed.
          and_then (clearLines placed) (\<lambda>(linesCleared, cleared).
          and_then
            (if linesCleared > 0 then
               and_then (handleLinesCleared linesCleared (g\<lparr> board := cleared \<rparr>)) (\<lambda>g.
                 Inr (g\<lparr> lineFlashTimer := lineFlashDuration g \<rparr>))
             else Inr (g\<lparr> board := cleared, combo := 0 \<rparr>)) (\<lambda>g.
          (let g = spawnNewPiece randomType (resetLockTimer g)
           in and_then (board_isGameOver (board g)) (\<lambda>topOccupied.
                if topOccupied then Inr (gameOver g)
                else (case currentPiece g of
                        None \<Rightarrow> Inl TypeError
                      | Some spawned \<Rightarrow>
                          and_then (canPlacePiece (board g) spawned 0 0) (\<lambda>fits.
                            Inr (if \<not> fits then gameOver g else g)))))))))"

text \<open>
  \<open>hardDrop\<close> calls \<open>getDropPosition\<close> twice, for the distance and for the new row, then
  \<open>lockPiece\<close>. It returns only if both calls do.
\<close>

definition hardDrop :: "piece_type \<Rightarrow> game \<Rightarrow> (fault + game) option" where
  "hardDrop randomType g =
     (case currentPiece g of
        None \<Rightarrow> Some (Inr g)
      | Some cp \<Rightarrow>
          if isGameOver g then Some (Inr g)
          else
            (case getDropPosition (board g) cp of
               None \<Rightarrow> None
             | Some (Inl e) \<Rightarrow> Some (Inl e)
             | Some (Inr landing) \<Rightarrow>
                 (let dropDistance = landing - piece_y cp
                  in case getDropPosition (board g) cp of
                       None \<Rightarrow> None
                     | Some (Inl e) \<Rightarrow> Some (Inl e)
                     | Some (Inr landing2) \<Rightarrow>
                         Some (lockPiece randomType
                                 (g\<lparr> currentPiece := Some (cp\<lparr> piece_y := landing2 \<rparr>),
                                     score := score g + dropDistance * 2 \<rparr>)))))"

text \<open>
  The \<open>for\<close> loop of \<open>rotatePiece\<close> over the wall kicks: \<open>rotated\<close> is the rotated copy
  that is tested, \<open>cp\<close> the current piece that is changed at the first offset that fits.
\<close>

fun tryWallKicks :: "game \<Rightarrow> piece \<Rightarrow> piece \<Rightarrow> (int \<times> int) list \<Rightarrow> fault + game" where
  "tryWallKicks g cp rotated [] = Inr g"
| "tryWallKicks g cp rotated (kick # rest) =
     and_then (canPlacePiece (board g) rotated (fst kick) (snd kick)) (\<lambda>fits.
       if fits then
         (let cp = piece_rotate cp;
              cp = cp\<lparr> piece_x := piece_x cp + fst kick \<rparr>;
              cp = cp\<lparr> piece_y := piece_y cp + snd kick \<rparr>
          in Inr (resetLockTimer (g\<lparr> currentPiece := Some cp \<rparr>)))
       else tryWallKicks g cp rotated rest)"

definition rotatePiece :: "game \<Rightarrow> fault + game" where
  "rotatePiece g =
     (case currentPiece g of
        None \<Rightarrow> Inr g
      | Some cp \<Rightarrow>
          if isGameOver g then Inr g
          else
            (let originalRotation = rotation cp;
                 rotated = piece_rotate (copy cp)
             in and_then (canPlacePiece (board g) rotated 0 0) (\<lambda>fits.
                  if fits then Inr (resetLockTimer (g\<lparr> currentPiece := Some (piece_rotate cp) \<rparr>))
                  else
                    (let fromRotation = originalRotation;
                         toRotation = rotation rotated;
                         wallKicks = getWallKickOffsets rotated fromRotation toRotation
                     in tryWallKicks g cp rotated wallKicks))))"

section \<open>Properties named by the specification\<close>

text \<open>
  A cell position is acceptable to \<open>canPlace\<close>: inside the horizontal bounds, above the
  bottom, and, when it is not above the board, on a cell that is not occupied.
\<close>

definition cell_ok :: "board \<Rightarrow> int \<Rightarrow> int \<Rightarrow> bool" where
  "cell_ok b cx cy =
     (0 \<le> cx \<and> cx < int (width b) \<and> cy < int (height b) \<and>
      (0 \<le> cy \<longrightarrow> grid b ! nat cy ! nat cx = None))"

text \<open>The session invariant of the level: one more than the tens of the lines total.\<close>

definition level_of_lines :: "game \<Rightarrow> bool" where
  "level_of_lines g = (0 \<le> lines g \<and> level g = lines g div 10 + 1)"

definition is4x4 :: "entry list list \<Rightarrow> bool" where
  "is4x4 s = (length s = 4 \<and> list_all (\<lambda>row. length row = 4) s)"

text \<open>The base points of the specification's table \<open>{1:40, 2:100, 3:300, 4:1200}\<close>.\<close>

fun spec_base :: "nat \<Rightarrow> int" where
  "spec_base n = (if n = 1 then 40 else if n = 2 then 100 else if n = 3 then 300
                  else if n = 4 then 1200 else 0)"

section \<open>Example boards, pieces and games\<close>

definition empty_board :: board where
  "empty_board = new_GameBoard 10 20"

text \<open>Row 19 is full, row 18 holds one block in column 0.\<close>

definition one_line_board :: board where
  "one_line_board =
     empty_board\<lparr> grid := replicate 18 (replicate 10 None)
                     @ [(replicate 10 None)[0 := Some ''#ff0000''],
                        replicate 10 (Some ''#00ffff'')] \<rparr>"

text \<open>The same board once \<open>clearLines\<close> has run on it.\<close>

definition cleared_board :: board where
  "cleared_board =
     empty_board\<lparr> grid := replicate 19 (replicate 10 None)
                     @ [(replicate 10 None)[0 := Some ''#ff0000'']],
                  linesToFlash := [19] \<rparr>"

text \<open>Row 19 is full but for columns 3 to 6.\<close>

definition gap_board :: board where
  "gap_board =
     empty_board\<lparr> grid := replicate 19 (replicate 10 None)
                     @ [replicate 3 (Some ''#ff0000'') @ replicate 4 None
                        @ replicate 3 (Some ''#ff0000'')] \<rparr>"

text \<open>Rows 16 to 19 are full but for column 9.\<close>

definition well_board :: board where
  "well_board =
     empty_board\<lparr> grid := replicate 16 (replicate 10 None)
                     @ replicate 4 (replicate 9 (Some ''#00ff00'') @ [None]) \<rparr>"

definition T_at_3_5 :: piece where
  "T_at_3_5 = new_Piece TypeT (Some 3) (Some 5)"

definition T_at_wall :: piece where
  "T_at_wall = new_Piece TypeT (Some 7) (Some 0)"

definition T_right :: piece where
  "T_right = piece_rotate (new_Piece TypeT None None)"

definition I_flat :: piece where
  "I_flat = new_Piece TypeI (Some 3) (Some 18)"

definition I_upright :: piece where
  "I_upright = piece_rotate (new_Piece TypeI (Some 7) (Some 16))"

definition fresh_game :: game where
  "fresh_game = new_TetrisGame TypeT TypeO"

definition wall_game :: game where
  "wall_game = fresh_game\<lparr> currentPiece := Some T_at_wall \<rparr>"

definition O_at_wall :: piece where
  "O_at_wall = new_Piece TypeO (Some 7) (Some 0)"

definition O_wall_game :: game where
  "O_wall_game = fresh_game\<lparr> currentPiece := Some O_at_wall \<rparr>"

definition single_game :: game where
  "single_game = fresh_game\<lparr> board := gap_board, currentPiece := Some I_flat \<rparr>"

definition tetris_game :: game where
  "tetris_game =
     fresh_game\<lparr> board := well_board, currentPiece := Some I_upright,
                  lines := 20, level := 3, combo := 1,
                  dropInterval := getLevelDropInterval (fresh_game\<lparr> level := 3 \<rparr>) \<rparr>"

text \<open>The empty board once the T piece of a new game has been dropped and locked.\<close>

definition dropped_board :: board where
  "dropped_board =
     empty_board\<lparr> grid := replicate 18 (replicate 10 None)
                     @ [(replicate 10 None)[4 := Some ''#aa00ff''],
                        (replicate 10 None)[3 := Some ''#aa00ff'', 4 := Some ''#aa00ff'',
                                            5 := Some ''#aa00ff'']] \<rparr>"

definition dropped_game :: game where
  "dropped_game =
     fresh_game\<lparr> board := dropped_board,
                  currentPiece := Some (new_Piece TypeO None None),
                  nextPiece := Some (new_Piece TypeS None None),
                  score := 36 \<rparr>"

text \<open>An I piece at its spawn position above the board whose row 19 lacks columns 3 to 6.\<close>

definition gap_drop_game :: game where
  "gap_drop_game =
     fresh_game\<lparr> board := gap_board, currentPiece := Some (new_Piece TypeI None None) \<rparr>"

definition filled_board :: board where
  "filled_board =
     empty_board\<lparr> grid := replicate 19 (replicate 10 None)
                     @ [replicate 3 (Some ''#ff0000'') @ replicate 4 (Some ''#00ffff'')
                        @ replicate 3 (Some ''#ff0000'')] \<rparr>"

definition gap_dropped_game :: game where
  "gap_dropped_game =
     fresh_game\<lparr> board := empty_board\<lparr> linesToFlash := [19] \<rparr>,
                  currentPiece := Some (new_Piece TypeO None None),
                  nextPiece := Some (new_Piece TypeS None None),
                  score := 76, lines := 1, combo := 1, lineFlashTimer := 300 \<rparr>"

definition nine_lines_game :: game where
  "nine_lines_game = fresh_game\<lparr> lines := 9 \<rparr>"

section \<open>Evaluation\<close>

declare dropLoop.simps [code]

lemma and_then_Inr [simp]: "and_then (Inr v) f = f v"
  by (simp add: and_then_def)

lemma and_then_Inl [simp]: "and_then (Inl e) f = Inl e"
  by (simp add: and_then_def)

section \<open>Placement\<close>

lemma wf_board_cell:
  assumes "wf_board b" "0 \<le> cy" "cy < int (height b)" "0 \<le> cx" "cx < int (width b)"
  shows "cell_truthy (grid b ! nat cy) (nat cx) = (grid b ! nat cy ! nat cx \<noteq> None)"
proof -
  have "nat cy < length (grid b)" "nat cx < length (grid b ! nat cy)"
    using assms by (auto simp: wf_board_def list_all_length)
  moreover have "grid b ! nat cy ! nat cx \<noteq> Some []"
    using assms calculation by (auto simp: wf_board_def list_all_length)
  ultimately show ?thesis
    by (auto simp: cell_truthy_def split: option.splits)
qed

lemma canPlaceLoop_wf:
  "wf_board b \<Longrightarrow>
     canPlaceLoop b ps ox oy = Inr (list_all (\<lambda>pos. cell_ok b (fst pos + ox) (snd pos + oy)) ps)"
proof (induction ps)
  case Nil
  then show ?case by simp
next
  case (Cons pos ps)
  have len: "length (grid b) = height b" using Cons.prems by (simp add: wf_board_def)
  show ?case
    using Cons.IH [OF Cons.prems] wf_board_cell [OF Cons.prems, of "snd pos + oy" "fst pos + ox"]
    by (auto simp: Let_def cell_ok_def len)
qed

lemma canPlacePiece_wf:
  "wf_board b \<Longrightarrow>
     canPlacePiece b p ox oy =
       Inr (list_all (\<lambda>pos. cell_ok b (fst pos + ox) (snd pos + oy)) (getOccupiedPositions p))"
  by (simp add: canPlacePiece_def canPlaceLoop_wf)

lemma set_getOccupiedPositions:
  "set (getOccupiedPositions p) =
     {(piece_x p + int xx, piece_y p + int yy) | xx yy.
        yy < length (shape p) \<and> xx < length (shape p ! yy) \<and> truthy (shape p ! yy ! xx)}"
  by (auto simp: getOccupiedPositions_def)

lemma placeLoop_linesToFlash:
  "placeLoop b c ps = Inr b' \<Longrightarrow> linesToFlash b' = linesToFlash b"
proof (induction ps arbitrary: b)
  case Nil
  then show ?case by simp
next
  case (Cons pos ps)
  then show ?case
    by (auto simp: Let_def split: if_splits dest!: Cons.IH)
qed

section \<open>The drop loop\<close>

lemma canPlacePiece_below:
  assumes "wf_board b" "getOccupiedPositions p \<noteq> []"
  shows "\<exists>n. canPlacePiece b p 0 (1 + int n) = Inr False"
proof -
  from assms(2) obtain pos where pos: "pos \<in> set (getOccupiedPositions p)"
    by (cases "getOccupiedPositions p") auto
  define n where "n = nat (int (height b) - snd pos)"
  have "\<not> cell_ok b (fst pos + 0) (snd pos + (1 + int n))"
    by (simp add: cell_ok_def n_def)
  with pos have "\<not> list_all (\<lambda>pos. cell_ok b (fst pos + 0) (snd pos + (1 + int n))) (getOccupiedPositions p)"
    by (auto simp: list_all_iff)
  then show ?thesis
    using canPlacePiece_wf [OF assms(1), of p 0 "1 + int n"] by auto
qed

lemma dropLoop_result:
  assumes "wf_board b"
  shows "canPlacePiece b p 0 (j + 1 + int n) = Inr False \<Longrightarrow>
     \<exists>d. j \<le> d \<and> dropLoop b p (piece_y p + j) = Some (Inr (piece_y p + d)) \<and>
         (\<forall>k. j < k \<and> k \<le> d \<longrightarrow> canPlacePiece b p 0 k = Inr True) \<and>
         canPlacePiece b p 0 (d + 1) = Inr False"
proof (induction n arbitrary: j)
  case 0
  then have "dropLoop b p (piece_y p + j) = Some (Inr (piece_y p + j))"
    by (subst dropLoop.simps) simp
  with 0 show ?case by (intro exI [of _ j]) auto
next
  case (Suc n)
  obtain fits where fits: "canPlacePiece b p 0 (j + 1) = Inr fits"
    using canPlacePiece_wf [OF assms] by blast
  show ?case
  proof (cases fits)
    case False
    with fits have "dropLoop b p (piece_y p + j) = Some (Inr (piece_y p + j))"
      by (subst dropLoop.simps) simp
    with fits False show ?thesis by (intro exI [of _ j]) auto
  next
    case True
    from Suc.prems have "canPlacePiece b p 0 (j + 1 + 1 + int n) = Inr False"
      by (simp add: add.commute add.left_commute)
    from Suc.IH [OF this] obtain d where d: "j + 1 \<le> d"
      "dropLoop b p (piece_y p + (j + 1)) = Some (Inr (piece_y p + d))"
      "\<forall>k. j + 1 < k \<and> k \<le> d \<longrightarrow> canPlacePiece b p 0 k = Inr True"
      "canPlacePiece b p 0 (d + 1) = Inr False"
      by blast
    have "dropLoop b p (piece_y p + j) = dropLoop b p (piece_y p + (j + 1))"
      using fits True by (subst dropLoop.simps) (simp add: add.assoc)
    moreover have "\<forall>k. j < k \<and> k \<le> d \<longrightarrow> canPlacePiece b p 0 k = Inr True"
    proof (intro allI impI)
      fix k assume "j < k \<and> k \<le> d"
      then consider "k = j + 1" | "j + 1 < k \<and> k \<le> d" by linarith
      then show "canPlacePiece b p 0 k = Inr True"
        using fits True d(3) by cases auto
    qed
    ultimately show ?thesis
      using d by (intro exI [of _ d]) auto
  qed
qed

text \<open>A piece without an occupied cell fits at every offset, and the loop never returns.\<close>

lemma dropLoop_needs_cell:
  assumes "dropLoop b p dropY = Some r"
  shows "getOccupiedPositions p \<noteq> []"
proof (rule dropLoop.raw_induct [where P = "\<lambda>b p dropY r. getOccupiedPositions p \<noteq> []", OF _ assms])
  fix f :: "board \<Rightarrow> piece \<Rightarrow> int \<Rightarrow> (fault + int) option" and b p dropY r
  assume IH: "\<And>b p dropY r. f b p dropY = Some r \<Longrightarrow> getOccupiedPositions p \<noteq> []"
  assume body: "(case canPlacePiece b p 0 (dropY - piece_y p + 1) of
                   Inl e \<Rightarrow> Some (Inl e)
                 | Inr fits \<Rightarrow> if fits then f b p (dropY + 1) else Some (Inr dropY)) = Some r"
  show "getOccupiedPositions p \<noteq> []"
  proof
    assume none: "getOccupiedPositions p = []"
    then have "canPlacePiece b p 0 (dropY - piece_y p + 1) = Inr True"
      by (simp add: canPlacePiece_def)
    with body have "f b p (dropY + 1) = Some r" by simp
    from IH [OF this] none show False by simp
  qed
qed

lemma getDropPosition_empty_piece:
  "getOccupiedPositions p = [] \<Longrightarrow> getDropPosition b p = None"
  using dropLoop_needs_cell [of b p "piece_y p"]
  by (cases "getDropPosition b p") (auto simp: getDropPosition_def)

section \<open>Clearing lines\<close>

lemma complete_indices_Cons:
  "filter (\<lambda>i. row_complete ((r # R) ! i)) [0..<length (r # R)]
     = (if row_complete r then [0] else [])
       @ map Suc (filter (\<lambda>i. row_complete (R ! i)) [0..<length R])"
proof -
  have "[0..<length (r # R)] = 0 # map Suc [0..<length R]"
    by (simp add: upt_conv_Cons map_Suc_upt del: upt_Suc)
  then show ?thesis
    by (simp add: filter_map comp_def)
qed

lemma fold_removeLine:
  "fold (removeLine w)
        (map (\<lambda>i. i + length P) (filter (\<lambda>i. row_complete (R ! i)) [0..<length R])) (P @ R)
     = replicate (length (filter (\<lambda>i. row_complete (R ! i)) [0..<length R])) (replicate w None)
       @ P @ filter (\<lambda>row. \<not> row_complete row) R"
proof (induction R arbitrary: P)
  case Nil
  then show ?case by simp
next
  case (Cons r R)
  let ?cs = "filter (\<lambda>i. row_complete (R ! i)) [0..<length R]"
  let ?E = "replicate w (None :: cell)"
  show ?case
  proof (cases "row_complete r")
    case False
    have "fold (removeLine w) (map (\<lambda>i. i + length P) (map Suc ?cs)) (P @ r # R)
            = fold (removeLine w) (map (\<lambda>i. i + length (P @ [r])) ?cs) ((P @ [r]) @ R)"
      by (simp add: comp_def)
    also have "\<dots> = replicate (length ?cs) ?E @ (P @ [r]) @ filter (\<lambda>row. \<not> row_complete row) R"
      by (rule Cons.IH)
    finally show ?thesis
      using False unfolding complete_indices_Cons by simp
  next
    case True
    have "fold (removeLine w) (map (\<lambda>i. i + length P) ([0] @ map Suc ?cs)) (P @ r # R)
            = fold (removeLine w) (map (\<lambda>i. i + length (?E # P)) ?cs)
                (removeLine w (length P) (P @ r # R))"
      by (simp add: comp_def)
    also have "removeLine w (length P) (P @ r # R) = (?E # P) @ R"
      by (simp add: removeLine_def)
    also have "fold (removeLine w) (map (\<lambda>i. i + length (?E # P)) ?cs) ((?E # P) @ R)
            = replicate (length ?cs) ?E @ (?E # P) @ filter (\<lambda>row. \<not> row_complete row) R"
      by (rule Cons.IH)
    finally show ?thesis
      using True unfolding complete_indices_Cons by (simp add: replicate_app_Cons_same)
  qed
qed

lemma completed_count:
  "length (filter (\<lambda>i. Q (R ! i)) [0..<length R]) = length (filter Q R)"
proof (induction R rule: rev_induct)
  case Nil
  then show ?case by simp
next
  case (snoc x xs)
  have "filter (\<lambda>i. Q ((xs @ [x]) ! i)) [0..<length xs] = filter (\<lambda>i. Q (xs ! i)) [0..<length xs]"
    by (rule filter_cong) (auto simp: nth_append)
  with snoc show ?case by simp
qed

lemma clearLines_wf:
  assumes "wf_board b"
  shows "clearLines b =
     Inr (length (completedLines b),
          if completedLines b = [] then b
          else b\<lparr> linesToFlash := completedLines b,
                  grid := replicate (length (completedLines b)) (replicate (width b) None)
                          @ filter (\<lambda>row. \<not> row_complete row) (grid b) \<rparr>)"
proof -
  have len: "length (grid b) = height b" using assms by (simp add: wf_board_def)
  have "fold (removeLine (width b)) (completedLines b) (grid b)
          = replicate (length (completedLines b)) (replicate (width b) None)
            @ filter (\<lambda>row. \<not> row_complete row) (grid b)"
    using fold_removeLine [of "width b" "[]" "grid b"]
    by (simp add: completedLines_def len)
  then show ?thesis
    by (simp add: clearLines_def len)
qed

section \<open>Rotation laws\<close>

lemma is4x4_rows:
  assumes "is4x4 s"
  obtains a0 a1 a2 a3 b0 b1 b2 b3 c0 c1 c2 c3 d0 d1 d2 d3 where
    "s = [[a0, a1, a2, a3], [b0, b1, b2, b3], [c0, c1, c2, c3], [d0, d1, d2, d3]]"
proof -
  have row: "\<exists>e0 e1 e2 e3. r = [e0, e1, e2, e3]" if "length r = 4" for r :: "entry list"
    using that by (auto simp: numeral_eq_Suc length_Suc_conv)
  from assms obtain r0 r1 r2 r3 where s: "s = [r0, r1, r2, r3]"
    by (auto simp: is4x4_def numeral_eq_Suc length_Suc_conv)
  with assms have "length r0 = 4" "length r1 = 4" "length r2 = 4" "length r3 = 4"
    by (simp_all add: is4x4_def)
  with row s that show thesis by metis
qed

lemma rotate_shape_4x4:
  "rotate_shape [[a0, a1, a2, a3], [b0, b1, b2, b3], [c0, c1, c2, c3], [d0, d1, d2, d3]]
     = [[d0, c0, b0, a0], [d1, c1, b1, a1], [d2, c2, b2, a2], [d3, c3, b3, a3]]"
  by (simp add: rotate_shape_def entry_at_def upt_rec)

lemma rotate_shape_round_trip:
  "is4x4 s \<Longrightarrow> rotate_shape (rotate_shape (rotate_shape (rotate_shape s))) = s"
  by (erule is4x4_rows) (simp add: rotate_shape_4x4)

lemma rotation_round_trip: "((((r + 1) mod 4 + 1) mod 4 + 1) mod 4 + 1) mod 4 = r mod (4::nat)"
  by presburger

lemma four_rotations_fields:
  "piece_rotate (piece_rotate (piece_rotate (piece_rotate p)))
     = p\<lparr> shape := rotate_shape (rotate_shape (rotate_shape (rotate_shape (shape p)))),
           rotation := rotation p mod 4 \<rparr>"
  by (simp add: piece_rotate_def rotation_round_trip del: One_nat_def)

lemma rotated_copy:
  "shape (piece_rotate (copy cp)) = shape (piece_rotate cp)"
  "piece_x (piece_rotate (copy cp)) = piece_x cp"
  "piece_y (piece_rotate (copy cp)) = piece_y cp"
  "piece_x (piece_rotate cp) = piece_x cp"
  "piece_y (piece_rotate cp) = piece_y cp"
  "piece_x (copy cp) = piece_x cp"
  "piece_y (copy cp) = piece_y cp"
  "type (piece_rotate (copy cp)) = type cp"
  "rotation (piece_rotate (copy cp)) = (rotation cp + 1) mod 4"
  by (simp_all add: piece_rotate_def copy_def new_Piece_def)

lemma canPlacePiece_copy:
  "canPlacePiece b (piece_rotate (copy cp)) dx dy = canPlacePiece b (piece_rotate cp) dx dy"
  by (simp add: canPlacePiece_def getOccupiedPositions_def rotated_copy cong: if_cong)

lemma kicks_T_0_1:
  "type cp = TypeT \<Longrightarrow> rotation cp = 0 \<Longrightarrow>
   getWallKickOffsets (piece_rotate (copy cp)) (rotation cp) (rotation (piece_rotate (copy cp)))
     = [(-1, 0), (-1, 1), (0, -2), (-1, -2)]"
  by (simp add: getWallKickOffsets_def rotated_copy wallKickData_JLSTZ_def)

section \<open>Locking\<close>

lemma wf_board_update:
  assumes "wf_board b" "i < height b" "j < width b" "c \<noteq> []"
  shows "wf_board (b\<lparr> grid := (grid b)[i := (grid b ! i)[j := Some c]] \<rparr>)"
  using assms
  by (auto simp: wf_board_def list_all_length nth_list_update)

lemma placeLoop_wf:
  "wf_board b \<Longrightarrow> c \<noteq> [] \<Longrightarrow>
     \<exists>b'. placeLoop b c ps = Inr b' \<and> wf_board b' \<and> width b' = width b \<and> height b' = height b"
proof (induction ps arbitrary: b)
  case Nil
  then show ?case by simp
next
  case (Cons pos ps)
  show ?case
  proof (cases "snd pos \<ge> 0 \<and> snd pos < int (height b) \<and> fst pos \<ge> 0 \<and> fst pos < int (width b)")
    case False
    then show ?thesis using Cons.IH [OF Cons.prems] by (auto simp: Let_def)
  next
    case True
    let ?b = "b\<lparr> grid := (grid b)[nat (snd pos) := (grid b ! nat (snd pos))[nat (fst pos) := Some c]] \<rparr>"
    from True have i: "nat (snd pos) < height b" and j: "nat (fst pos) < width b" by auto
    have len: "nat (snd pos) < length (grid b)" "nat (fst pos) < length (grid b ! nat (snd pos))"
      using Cons.prems(1) i j by (auto simp: wf_board_def list_all_length)
    have wf: "wf_board ?b" by (rule wf_board_update [OF Cons.prems(1) i j Cons.prems(2)])
    have step: "placeLoop b c (pos # ps) = placeLoop ?b c ps"
      using True len by (simp add: Let_def)
    from Cons.IH [OF wf Cons.prems(2)] step show ?thesis by simp
  qed
qed

lemma placePiece_wf:
  "wf_board b \<Longrightarrow> color p \<noteq> [] \<Longrightarrow>
     \<exists>b'. placePiece b p = Inr b' \<and> wf_board b' \<and> width b' = width b \<and> height b' = height b"
  unfolding placePiece_def by (rule placeLoop_wf)

lemma clearLines_wf_result:
  assumes "wf_board b"
  shows "\<exists>n b'. clearLines b = Inr (n, b') \<and> wf_board b' \<and> width b' = width b \<and> height b' = height b"
proof -
  have len: "length (grid b) = height b" using assms by (simp add: wf_board_def)
  have cnt: "length (completedLines b) = length (filter row_complete (grid b))"
    using completed_count [of row_complete "grid b"] by (simp add: completedLines_def len)
  have "wf_board (b\<lparr> linesToFlash := completedLines b,
                  grid := replicate (length (completedLines b)) (replicate (width b) None)
                          @ filter (\<lambda>row. \<not> row_complete row) (grid b) \<rparr>)"
    using assms sum_length_filter_compl [of row_complete "grid b"]
    by (auto simp: wf_board_def cnt list_all_iff)
  with assms clearLines_wf [OF assms] show ?thesis by auto
qed

lemma board_isGameOver_wf:
  "wf_board b \<Longrightarrow> 0 < height b \<Longrightarrow> \<exists>t. board_isGameOver b = Inr t"
  by (cases "grid b") (auto simp: wf_board_def board_isGameOver_def)

lemma handleLinesCleared_fields:
  assumes "n \<le> 4"
  shows "\<exists>g'. handleLinesCleared n g = Inr g' \<and>
      lines g' = lines g + int n \<and> combo g' = combo g + 1 \<and>
      score g' = score g + baseScores ! n * level g
                 + (if combo g + 1 > 1 then 50 * (combo g + 1) * level g else 0) \<and>
      level g' = max (level g) ((lines g + int n) div 10 + 1) \<and>
      dropInterval g' = (if level g < (lines g + int n) div 10 + 1
                         then of_int (max 1 (48 - ((lines g + int n) div 10 + 1 - 1) * 5)) / 60 * 1000
                         else dropInterval g) \<and>
      board g' = board g \<and> currentPiece g' = currentPiece g \<and> nextPiece g' = nextPiece g \<and>
      lineFlashDuration g' = lineFlashDuration g"
  using assms
  by (simp add: handleLinesCleared_def baseScores_def Let_def getLevelDropInterval_def)

lemma lock_tail:
  assumes "wf_board (board g)" "0 < height (board g)" "nextPiece g = Some np"
  shows "\<exists>g'. (let g = spawnNewPiece randomType (resetLockTimer g)
           in and_then (board_isGameOver (board g)) (\<lambda>topOccupied.
                if topOccupied then Inr (gameOver g)
                else (case currentPiece g of
                        None \<Rightarrow> Inl TypeError
                      | Some spawned \<Rightarrow>
                          and_then (canPlacePiece (board g) spawned 0 0) (\<lambda>fits.
                            Inr (if \<not> fits then gameOver g else g))))) = Inr g' \<and>
      score g' = score g \<and> lines g' = lines g \<and> combo g' = combo g \<and> level g' = level g \<and>
      dropInterval g' = dropInterval g \<and> board g' = board g \<and> lineFlashTimer g' = lineFlashTimer g"
proof -
  obtain t where t: "board_isGameOver (board g) = Inr t"
    using board_isGameOver_wf [OF assms(1,2)] by blast
  obtain f where f: "canPlacePiece (board g) np 0 0 = Inr f"
    using canPlacePiece_wf [OF assms(1)] by blast
  show ?thesis
    using t f assms(3)
    by (simp add: Let_def spawnNewPiece_def generateNextPiece_def resetLockTimer_def gameOver_def)
qed

lemma handleLinesCleared_lock_fields:
  "handleLinesCleared n (g\<lparr> isLocking := l, lockTimer := t \<rparr>)
     = and_then (handleLinesCleared n g) (\<lambda>g'. Inr (g'\<lparr> isLocking := l, lockTimer := t \<rparr>))"
  by (simp add: handleLinesCleared_def Let_def getLevelDropInterval_def)

lemma lockPiece_ignores_lock_timer:
  assumes "currentPiece g = Some cp"
  shows "lockPiece r (g\<lparr> isLocking := l, lockTimer := t \<rparr>) = lockPiece r g"
proof (cases "placePiece (board g) cp")
  case (Inl e)
  with assms show ?thesis by (simp add: lockPiece_def)
next
  case (Inr placed)
  show ?thesis
  proof (cases "clearLines placed")
    case (Inl e)
    with assms Inr show ?thesis by (simp add: lockPiece_def)
  next
    case cl: (Inr res)
    obtain n cleared where res: "res = (n, cleared)" by (cases res)
    show ?thesis
    proof (cases "0 < n")
      case False
      have "(g\<lparr> isLocking := l, lockTimer := t, board := cleared, combo := 0 \<rparr>)
              = (g\<lparr> board := cleared, combo := 0 \<rparr>)\<lparr> isLocking := l, lockTimer := t \<rparr>"
        by simp
      with assms Inr cl res False show ?thesis
        by (simp add: lockPiece_def resetLockTimer_def)
    next
      case True
      have upd: "(g\<lparr> isLocking := l, lockTimer := t, board := cleared \<rparr>)
              = (g\<lparr> board := cleared \<rparr>)\<lparr> isLocking := l, lockTimer := t \<rparr>"
        by simp
      show ?thesis
      proof (cases "handleLinesCleared n (g\<lparr> board := cleared \<rparr>)")
        case (Inl e)
        with assms Inr cl res True show ?thesis
          by (simp add: lockPiece_def upd handleLinesCleared_lock_fields)
      next
        case h: (Inr g1)
        have "(g1\<lparr> isLocking := l, lockTimer := t, lineFlashTimer := lineFlashDuration g1 \<rparr>)
              = (g1\<lparr> lineFlashTimer := lineFlashDuration g1 \<rparr>)\<lparr> isLocking := l, lockTimer := t \<rparr>"
          by simp
        with assms Inr cl res True h show ?thesis
          by (simp add: lockPiece_def upd handleLinesCleared_lock_fields resetLockTimer_def)
      qed
    qed
  qed
qed

text \<open>What a lock leaves: the cells of the placed piece, and the state after the spawn.\<close>

lemma placeLoop_cells:
  "wf_board b \<Longrightarrow> c \<noteq> [] \<Longrightarrow> placeLoop b c ps = Inr b' \<Longrightarrow>
     i < height b \<Longrightarrow> j < width b \<Longrightarrow>
     grid b' ! i ! j = (if (int j, int i) \<in> set ps then Some c else grid b ! i ! j)"
proof (induction ps arbitrary: b)
  case Nil
  then show ?case by simp
next
  case (Cons pos ps)
  show ?case
  proof (cases "snd pos \<ge> 0 \<and> snd pos < int (height b) \<and> fst pos \<ge> 0 \<and> fst pos < int (width b)")
    case False
    then have step: "placeLoop b c (pos # ps) = placeLoop b c ps" by (auto simp: Let_def)
    from False Cons.prems(4,5) have "pos \<noteq> (int j, int i)" by auto
    with Cons.IH [OF Cons.prems(1,2) _ Cons.prems(4,5)] Cons.prems(3) step show ?thesis
      by auto
  next
    case True
    let ?i = "nat (snd pos)" and ?j = "nat (fst pos)"
    let ?b = "b\<lparr> grid := (grid b)[?i := (grid b ! ?i)[?j := Some c]] \<rparr>"
    from True have i: "?i < height b" and j: "?j < width b" by auto
    have len: "?i < length (grid b)" "?j < length (grid b ! ?i)"
      "i < length (grid b)" "j < length (grid b ! i)"
      using Cons.prems(1,4,5) i j by (auto simp: wf_board_def list_all_length)
    have wf: "wf_board ?b" by (rule wf_board_update [OF Cons.prems(1) i j Cons.prems(2)])
    have step: "placeLoop b c (pos # ps) = placeLoop ?b c ps"
      using True len by (simp add: Let_def)
    have dims: "height ?b = height b" "width ?b = width b" by simp_all
    have here: "pos = (int j, int i) \<longleftrightarrow> (i = ?i \<and> j = ?j)"
      using True by (cases pos) auto
    have upd: "grid ?b ! i ! j = (if i = ?i \<and> j = ?j then Some c else grid b ! i ! j)"
      using len by (auto simp: nth_list_update)
    from Cons.IH [OF wf Cons.prems(2)] step Cons.prems(3,4,5) dims
    have "grid b' ! i ! j = (if (int j, int i) \<in> set ps then Some c else grid ?b ! i ! j)"
      by simp
    with upd here show ?thesis by auto
  qed
qed

lemma getOccupiedPositions_rows:
  "(cx, cy) \<in> set (getOccupiedPositions p) \<Longrightarrow>
     \<exists>yy < length (shape p). cy = piece_y p + int yy"
  by (auto simp: set_getOccupiedPositions)

lemma completed_after_place:
  assumes wf: "wf_board b" and c: "color p \<noteq> []" and pl: "placePiece b p = Inr placed"
    and none: "completedLines b = []" and rows: "length (shape p) \<le> 4"
  shows "length (completedLines placed) \<le> 4"
proof -
  obtain b' where b': "placePiece b p = Inr b'" "wf_board b'" "width b' = width b"
    "height b' = height b"
    using placePiece_wf [OF wf c] by blast
  with pl have dims: "wf_board placed" "width placed = width b" "height placed = height b"
    by simp_all
  have sub: "set (completedLines placed) \<subseteq> (\<lambda>k. nat (piece_y p + int k)) ` {0..<4}"
  proof
    fix y assume "y \<in> set (completedLines placed)"
    then have y: "y < height b" and full: "row_complete (grid placed ! y)"
      by (simp_all add: completedLines_def dims)
    from none y have "\<not> row_complete (grid b ! y)"
      by (auto simp: completedLines_def filter_empty_conv)
    moreover have "length (grid b ! y) = width b"
      using wf y by (auto simp: wf_board_def list_all_length)
    ultimately obtain j where j: "j < width b" "grid b ! y ! j = None"
      by (auto simp: row_complete_def list_all_length)
    have "length (grid placed ! y) = width b"
      using dims y by (auto simp: wf_board_def list_all_length)
    with full j(1) have "grid placed ! y ! j \<noteq> None"
      by (auto simp: row_complete_def list_all_length)
    with placeLoop_cells [OF wf c pl [unfolded placePiece_def] y j(1)] j(2)
    have "(int j, int y) \<in> set (getOccupiedPositions p)"
      by (auto split: if_splits)
    from getOccupiedPositions_rows [OF this] obtain yy
      where "yy < length (shape p)" "int y = piece_y p + int yy" by blast
    with rows have "yy \<in> {0..<4}" "y = nat (piece_y p + int yy)" by auto
    then show "y \<in> (\<lambda>k. nat (piece_y p + int k)) ` {0..<4}" by blast
  qed
  have "distinct (completedLines placed)"
    by (simp add: completedLines_def)
  then have "length (completedLines placed) = card (set (completedLines placed))"
    by (simp add: distinct_card)
  also have "\<dots> \<le> card ((\<lambda>k. nat (piece_y p + int k)) ` {0..<4::nat})"
    by (rule card_mono) (use sub in auto)
  also have "\<dots> \<le> card {0..<4::nat}"
    by (rule card_image_le) simp
  finally show ?thesis by simp
qed

lemma lock_tail_state:
  assumes "wf_board (board g)" "0 < height (board g)" "nextPiece g = Some np"
  shows "\<exists>g'. (let g = spawnNewPiece randomType (resetLockTimer g)
           in and_then (board_isGameOver (board g)) (\<lambda>topOccupied.
                if topOccupied then Inr (gameOver g)
                else (case currentPiece g of
                        None \<Rightarrow> Inl TypeError
                      | Some spawned \<Rightarrow>
                          and_then (canPlacePiece (board g) spawned 0 0) (\<lambda>fits.
                            Inr (if \<not> fits then gameOver g else g))))) = Inr g' \<and>
      score g' = score g \<and> lines g' = lines g \<and> combo g' = combo g \<and> level g' = level g \<and>
      board g' = board g \<and> lineFlashTimer g' = lineFlashTimer g \<and>
      currentPiece g' = Some np \<and> nextPiece g' = Some (new_Piece randomType None None) \<and>
      \<not> isLocking g' \<and> lockTimer g' = 0 \<and>
      isGameOver g' = (isGameOver g \<or> board_isGameOver (board g) = Inr True
                        \<or> canPlacePiece (board g) np 0 0 = Inr False)"
proof -
  obtain t where t: "board_isGameOver (board g) = Inr t"
    using board_isGameOver_wf [OF assms(1,2)] by blast
  obtain f where f: "canPlacePiece (board g) np 0 0 = Inr f"
    using canPlacePiece_wf [OF assms(1)] by blast
  show ?thesis
    using t f assms(3)
    by (simp add: Let_def spawnNewPiece_def generateNextPiece_def resetLockTimer_def gameOver_def)
qed

lemma set_positions_moved:
  "set (getOccupiedPositions (p\<lparr> piece_y := piece_y p + d \<rparr>))
     = (\<lambda>pos. (fst pos, snd pos + d)) ` set (getOccupiedPositions p)"
proof -
  have "(piece_x p + int xx, piece_y p + d + int yy)
          = (\<lambda>pos. (fst pos, snd pos + d)) (piece_x p + int xx, piece_y p + int yy)" for xx yy
    by simp
  then show ?thesis
    unfolding set_getOccupiedPositions by (fastforce simp: image_iff)
qed

lemma canPlacePiece_moved:
  assumes "wf_board b"
  shows "canPlacePiece b (p\<lparr> piece_y := piece_y p + d \<rparr>) ox oy = canPlacePiece b p ox (d + oy)"
  by (simp add: canPlacePiece_wf [OF assms] list_all_iff set_positions_moved add.assoc)

lemma lockPiece_result:
  assumes "wf_board (board g)" "0 < height (board g)" "currentPiece g = Some cp"
    "color cp \<noteq> []" "nextPiece g = Some np"
    "placePiece (board g) cp = Inr placed" "clearLines placed = Inr (n, cleared)" "n \<le> 4"
  shows "\<exists>g'. lockPiece randomType g = Inr g' \<and>
      board g' = cleared \<and> currentPiece g' = Some np \<and>
      nextPiece g' = Some (new_Piece randomType None None) \<and>
      \<not> isLocking g' \<and> lockTimer g' = 0 \<and>
      lines g' = lines g + int n \<and>
      combo g' = (if n = 0 then 0 else combo g + 1) \<and>
      score g' = score g + (if n = 0 then 0
                            else spec_base n * level g
                                 + (if combo g + 1 > 1 then 50 * (combo g + 1) * level g else 0)) \<and>
      lineFlashTimer g' = (if n = 0 then lineFlashTimer g else lineFlashDuration g) \<and>
      isGameOver g' = (isGameOver g \<or> board_isGameOver cleared = Inr True
                        \<or> canPlacePiece cleared np 0 0 = Inr False)"
proof -
  obtain b' where "placePiece (board g) cp = Inr b'" "wf_board b'" "height b' = height (board g)"
    using placePiece_wf [OF assms(1,4)] by blast
  with assms(6) have placed: "wf_board placed" "height placed = height (board g)" by simp_all
  obtain n' c' where "clearLines placed = Inr (n', c')" "wf_board c'" "height c' = height placed"
    using clearLines_wf_result [OF placed(1)] by blast
  with assms(7) have cleared: "wf_board cleared" "height cleared = height placed" by simp_all
  have h: "0 < height cleared" using assms(2) placed(2) cleared(2) by simp
  show ?thesis
  proof (cases "n = 0")
    case True
    let ?g = "g\<lparr> board := cleared, combo := 0 \<rparr>"
    have "wf_board (board ?g)" "0 < height (board ?g)" "nextPiece ?g = Some np"
      using cleared(1) h assms(5) by simp_all
    from lock_tail_state [OF this, of randomType] show ?thesis
      using True assms(3,6,7) by (auto simp: lockPiece_def)
  next
    case False
    then have pos: "0 < n" by simp
    from handleLinesCleared_fields [OF assms(8), of "g\<lparr> board := cleared \<rparr>"]
    obtain g1 where g1: "handleLinesCleared n (g\<lparr> board := cleared \<rparr>) = Inr g1"
      "lines g1 = lines g + int n" "combo g1 = combo g + 1"
      "score g1 = score g + baseScores ! n * level g
                 + (if combo g + 1 > 1 then 50 * (combo g + 1) * level g else 0)"
      "board g1 = cleared" "nextPiece g1 = nextPiece g" "lineFlashDuration g1 = lineFlashDuration g"
      "isGameOver g1 = isGameOver g"
      by (auto simp: handleLinesCleared_def Let_def split: if_splits)
    let ?g = "g1\<lparr> lineFlashTimer := lineFlashDuration g1 \<rparr>"
    have "wf_board (board ?g)" "0 < height (board ?g)" "nextPiece ?g = Some np"
      using cleared(1) h assms(5) g1(5,6) by simp_all
    from lock_tail_state [OF this, of randomType] obtain g' where g':
      "lockPiece randomType g = Inr g'" "score g' = score ?g" "lines g' = lines ?g"
      "combo g' = combo ?g" "board g' = board ?g" "lineFlashTimer g' = lineFlashTimer ?g"
      "currentPiece g' = Some np" "nextPiece g' = Some (new_Piece randomType None None)"
      "\<not> isLocking g'" "lockTimer g' = 0"
      "isGameOver g' = (isGameOver ?g \<or> board_isGameOver (board ?g) = Inr True
                        \<or> canPlacePiece (board ?g) np 0 0 = Inr False)"
      using pos assms(3,6,7) g1(1) by (auto simp: lockPiece_def)
    have base: "baseScores ! n = spec_base n"
      using pos assms(8) by (auto simp: baseScores_def numeral_eq_Suc nth_Cons' le_Suc_eq)
    show ?thesis
      using g' g1(2-8) base False by (intro exI [of _ g']) simp
  qed
qed

lemma hardDrop_as_lockPiece:
  assumes "currentPiece g = Some cp" "\<not> isGameOver g"
    "getDropPosition (board g) cp = Some (Inr landingRow)"
  shows "hardDrop randomType g =
           Some (lockPiece randomType
                   (g\<lparr> currentPiece := Some (cp\<lparr> piece_y := landingRow \<rparr>),
                       score := score g + 2 * (landingRow - piece_y cp) \<rparr>))"
    and "hardDrop randomType (g\<lparr> isLocking := l, lockTimer := t \<rparr>) = hardDrop randomType g"
proof -
  let ?g = "g\<lparr> currentPiece := Some (cp\<lparr> piece_y := landingRow \<rparr>),
               score := score g + 2 * (landingRow - piece_y cp) \<rparr>"
  show run: "hardDrop randomType g = Some (lockPiece randomType ?g)"
    using assms by (simp add: hardDrop_def Let_def mult.commute)
  let ?h = "g\<lparr> isLocking := l, lockTimer := t \<rparr>"
  have comm: "?h\<lparr> currentPiece := Some (cp\<lparr> piece_y := landingRow \<rparr>),
                 score := score ?h + (landingRow - piece_y cp) * 2 \<rparr>
              = ?g\<lparr> isLocking := l, lockTimer := t \<rparr>"
    by (cases g) simp
  have "hardDrop randomType ?h
          = Some (lockPiece randomType
              (?h\<lparr> currentPiece := Some (cp\<lparr> piece_y := landingRow \<rparr>),
                  score := score ?h + (landingRow - piece_y cp) * 2 \<rparr>))"
    using assms by (simp add: hardDrop_def Let_def)
  also have "\<dots> = Some (lockPiece randomType (?g\<lparr> isLocking := l, lockTimer := t \<rparr>))"
    by (simp only: comm)
  also have "lockPiece randomType (?g\<lparr> isLocking := l, lockTimer := t \<rparr>)
               = lockPiece randomType ?g"
    by (rule lockPiece_ignores_lock_timer) simp
  finally show "hardDrop randomType ?h = hardDrop randomType g" using run by simp
qed

lemma level_of_lines_new: "level_of_lines (new_TetrisGame r1 r2)"
  by (simp add: level_of_lines_def new_TetrisGame_def Let_def spawnNewPiece_def generateNextPiece_def)

lemma level_of_lines_restart: "level_of_lines (restart r1 r2 g)"
  by (simp add: level_of_lines_def restart_def Let_def spawnNewPiece_def generateNextPiece_def)

text \<open>The level invariant is kept by every lock.\<close>

lemma handleLinesCleared_level_of_lines:
  assumes "handleLinesCleared n g = Inr g'" "level_of_lines g"
  shows "level_of_lines g' \<and> level g \<le> level g'"
proof -
  have mono: "lines g div 10 \<le> (lines g + int n) div 10"
    by (rule zdiv_mono1) simp_all
  show ?thesis
    using assms mono
    by (auto simp: handleLinesCleared_def Let_def level_of_lines_def split: if_splits)
qed

lemma lock_tail_level:
  assumes "(let g = spawnNewPiece randomType (resetLockTimer g)
           in and_then (board_isGameOver (board g)) (\<lambda>topOccupied.
                if topOccupied then Inr (gameOver g)
                else (case currentPiece g of
                        None \<Rightarrow> Inl TypeError
                      | Some spawned \<Rightarrow>
                          and_then (canPlacePiece (board g) spawned 0 0) (\<lambda>fits.
                            Inr (if \<not> fits then gameOver g else g))))) = Inr g'"
  shows "lines g' = lines g \<and> level g' = level g"
  using assms
  by (auto simp: Let_def and_then_def spawnNewPiece_def generateNextPiece_def resetLockTimer_def
        gameOver_def split: sum.splits option.splits if_splits)

lemma lockPiece_level_of_lines:
  assumes "lockPiece randomType g = Inr g'" "level_of_lines g"
  shows "level_of_lines g' \<and> level g \<le> level g'"
proof (cases "currentPiece g")
  case None
  with assms show ?thesis by (simp add: lockPiece_def)
next
  case (Some cp)
  from assms(1) Some obtain placed n cleared g1 where
    run: "placePiece (board g) cp = Inr placed" "clearLines placed = Inr (n, cleared)"
      "(if n > 0 then
               and_then (handleLinesCleared n (g\<lparr> board := cleared \<rparr>)) (\<lambda>g.
                 Inr (g\<lparr> lineFlashTimer := lineFlashDuration g \<rparr>))
             else Inr (g\<lparr> board := cleared, combo := 0 \<rparr>)) = Inr g1"
      "(let g = spawnNewPiece randomType (resetLockTimer g1)
           in and_then (board_isGameOver (board g)) (\<lambda>topOccupied.
                if topOccupied then Inr (gameOver g)
                else (case currentPiece g of
                        None \<Rightarrow> Inl TypeError
                      | Some spawned \<Rightarrow>
                          and_then (canPlacePiece (board g) spawned 0 0) (\<lambda>fits.
                            Inr (if \<not> fits then gameOver g else g))))) = Inr g'"
    by (auto simp: lockPiece_def and_then_def split: sum.splits)
  have "level_of_lines (g\<lparr> board := cleared \<rparr>)"
    using assms(2) by (simp add: level_of_lines_def)
  then have "level_of_lines g1 \<and> level g \<le> level g1"
    using run(3) assms(2) handleLinesCleared_level_of_lines [of n "g\<lparr> board := cleared \<rparr>"]
    by (auto simp: and_then_def level_of_lines_def split: if_splits sum.splits)
  with lock_tail_level [OF run(4)] show ?thesis
    by (simp add: level_of_lines_def)
qed


lemma hardDrop_level_of_lines:
  assumes "hardDrop randomType g = Some (Inr g')" "level_of_lines g"
  shows "level_of_lines g' \<and> level g \<le> level g'"
proof (cases "currentPiece g")
  case None
  with assms show ?thesis by (simp add: hardDrop_def)
next
  case (Some cp)
  show ?thesis
  proof (cases "isGameOver g")
    case True
    with Some assms show ?thesis by (simp add: hardDrop_def)
  next
    case False
    from assms(1) Some False obtain landing where
      "lockPiece randomType
         (g\<lparr> currentPiece := Some (cp\<lparr> piece_y := landing \<rparr>),
             score := score g + (landing - piece_y cp) * 2 \<rparr>) = Inr g'"
      by (auto simp: hardDrop_def Let_def split: option.splits sum.splits)
    from lockPiece_level_of_lines [OF this] assms(2) show ?thesis
      by (simp add: level_of_lines_def)
  qed
qed


section \<open>Claims about the board\<close>

text \<open>
  C1 (as amended). On every well-formed board, and so on every 10 x 20 board of the game,
  \<open>clearLines\<close> collects the indices of the rows in which every cell is occupied, in
  ascending order, and returns their count. The new grid is one empty row per removed
  row, followed by the rows that are not complete, in their old order and with their old
  content. When at least one row is removed the flash record becomes the list of the
  indices before the removal; when none is, the board, flash record included, is left as it
  was. With one complete row \<open>k\<close> the result is 1 and the new grid is an empty row, the
  rows above \<open>k\<close> and then the rows below \<open>k\<close>.
\<close>

theorem clearLines_removes_complete_rows:
  assumes "wf_board b"
  shows "sorted_wrt (<) (completedLines b) \<and>
         set (completedLines b) = {y. y < height b \<and> (\<forall>cell \<in> set (grid b ! y). cell \<noteq> None)} \<and>
         length (completedLines b) = length (filter row_complete (grid b)) \<and>
         clearLines b =
           Inr (length (completedLines b),
                if completedLines b = [] then b
                else b\<lparr> linesToFlash := completedLines b,
                        grid := replicate (length (completedLines b)) (replicate (width b) None)
                                @ filter (\<lambda>row. \<not> row_complete row) (grid b) \<rparr>) \<and>
         (\<forall>k. completedLines b = [k] \<longrightarrow>
              clearLines b =
                Inr (1, b\<lparr> linesToFlash := [k],
                           grid := replicate (width b) None
                                   # take k (grid b) @ drop (Suc k) (grid b) \<rparr>))"
proof -
  have len: "length (grid b) = height b"
    using assms by (simp add: wf_board_def)
  have "sorted_wrt (<) (completedLines b)"
    by (simp add: completedLines_def sorted_wrt_filter)
  moreover have "set (completedLines b)
      = {y. y < height b \<and> (\<forall>cell \<in> set (grid b ! y). cell \<noteq> None)}"
    by (auto simp: completedLines_def row_complete_def list_all_iff)
  moreover have "length (completedLines b) = length (filter row_complete (grid b))"
    using completed_count [of row_complete "grid b"] by (simp add: completedLines_def len)
  moreover note clearLines_wf [OF assms]
  moreover have "clearLines b =
      Inr (1, b\<lparr> linesToFlash := [k],
                 grid := replicate (width b) None # take k (grid b) @ drop (Suc k) (grid b) \<rparr>)"
    if "completedLines b = [k]" for k
    using that by (simp add: clearLines_def len removeLine_def)
  ultimately show ?thesis by blast
qed

theorem clearLines_removes_complete_rows_witness:
  "wf_board one_line_board \<and> completedLines one_line_board = [19] \<and>
   clearLines one_line_board = Inr (1, cleared_board)"
proof -
  have wf: "wf_board one_line_board" by code_simp
  have cl: "completedLines one_line_board = [19]" by code_simp
  have eq: "one_line_board\<lparr> linesToFlash := [19],
              grid := replicate (width one_line_board) None
                      # take 19 (grid one_line_board) @ drop (Suc 19) (grid one_line_board) \<rparr>
            = cleared_board"
    by code_simp
  from clearLines_removes_complete_rows [OF wf] cl
  have "clearLines one_line_board =
      Inr (1, one_line_board\<lparr> linesToFlash := [19],
              grid := replicate (width one_line_board) None
                      # take 19 (grid one_line_board) @ drop (Suc 19) (grid one_line_board) \<rparr>)"
    by blast
  with wf cl eq show ?thesis by simp
qed

text \<open>
  C1 as stated fails where no row is complete and the flash record is not empty: on the
  board that a clear of row 19 has left, a second \<open>clearLines\<close> returns 0 and the flash
  record is still \<open>[19]\<close>, not the (empty) list of the rows this call removed.
\<close>

theorem clearLines_flash_record_counterexample:
  "wf_board cleared_board \<and>
   clearLines cleared_board = Inr (0, cleared_board) \<and>
   completedLines cleared_board = [] \<and>
   linesToFlash cleared_board = [19] \<and>
   linesToFlash cleared_board \<noteq> completedLines cleared_board"
  by code_simp

text \<open>
  C10. When \<open>clearLines\<close> finds no complete row it returns 0 and the board it leaves is the
  board it was given, so the flash record is not emptied. No call of \<open>clearLines\<close> turns a
  flash record that is not empty into an empty one, and \<open>placePiece\<close> does not touch it;
  \<open>clearFlashingLines\<close> and \<open>reset\<close> empty it.
\<close>

theorem clearLines_zero_keeps_flash_record:
  "(height b \<le> length (grid b) \<and> completedLines b = [] \<longrightarrow> clearLines b = Inr (0, b)) \<and>
   (clearLines b = Inr (n, b') \<and> n = 0 \<longrightarrow> linesToFlash b' = linesToFlash b) \<and>
   (clearLines b = Inr (n, b') \<and> linesToFlash b \<noteq> [] \<longrightarrow> linesToFlash b' \<noteq> []) \<and>
   (placePiece b p = Inr b'' \<longrightarrow> linesToFlash b'' = linesToFlash b) \<and>
   linesToFlash (clearFlashingLines b) = [] \<and>
   linesToFlash (reset b) = []"
proof -
  have "linesToFlash b'' = linesToFlash b" if "placePiece b p = Inr b''"
    using placeLoop_linesToFlash that by (simp add: placePiece_def)
  moreover have "linesToFlash b' = linesToFlash b" if "clearLines b = Inr (n, b')" "n = 0"
    using that by (auto simp: clearLines_def split: if_splits)
  moreover have "linesToFlash b' \<noteq> []" if "clearLines b = Inr (n, b')" "linesToFlash b \<noteq> []"
    using that by (auto simp: clearLines_def split: if_splits)
  moreover have "clearLines b = Inr (0, b)" if "height b \<le> length (grid b)" "completedLines b = []"
    using that by (simp add: clearLines_def)
  ultimately show ?thesis
    by (simp add: clearFlashingLines_def reset_def)
qed

theorem clearLines_zero_keeps_flash_record_witness:
  "clearLines one_line_board = Inr (1, cleared_board) \<and>
   linesToFlash cleared_board = [19] \<and>
   completedLines cleared_board = [] \<and>
   clearLines cleared_board = Inr (0, cleared_board) \<and>
   linesToFlash (clearFlashingLines cleared_board) = []"
proof -
  have first: "clearLines one_line_board = Inr (1, cleared_board)" by code_simp
  have stale: "linesToFlash cleared_board = [19]" by code_simp
  have rows: "height cleared_board \<le> length (grid cleared_board)" by code_simp
  have none: "completedLines cleared_board = []" by code_simp
  from clearLines_zero_keeps_flash_record [of cleared_board 0 cleared_board] rows none
  have "clearLines cleared_board = Inr (0, cleared_board)"
    and "linesToFlash (clearFlashingLines cleared_board) = []"
    by blast+
  with first stale none show ?thesis by simp
qed

text \<open>
  C4. On a well-formed board \<open>canPlacePiece\<close> returns true if and only if every truthy
  entry of the mask, moved to the piece's origin and by the offset, has its column in
  \<open>[0, width)\<close>, its row below \<open>height\<close> and, where its row is not negative, lies on a
  grid cell that is \<open>null\<close>.
\<close>

theorem canPlacePiece_iff:
  "wf_board b \<Longrightarrow>
     canPlacePiece b p dx dy =
       Inr (\<forall>yy < length (shape p). \<forall>xx < length (shape p ! yy).
              truthy (shape p ! yy ! xx) \<longrightarrow>
                cell_ok b (piece_x p + int xx + dx) (piece_y p + int yy + dy))"
  by (fastforce simp: canPlacePiece_def canPlaceLoop_wf list_all_iff set_getOccupiedPositions)

theorem canPlacePiece_iff_witness:
  "wf_board one_line_board \<and>
   canPlacePiece one_line_board T_at_3_5 0 12 = Inr True \<and>
   cell_ok one_line_board (piece_x T_at_3_5 + int 1 + 0) (piece_y T_at_3_5 + int 0 + 12) \<and>
   cell_ok one_line_board (piece_x T_at_3_5 + int 0 + 0) (piece_y T_at_3_5 + int 1 + 12) \<and>
   cell_ok one_line_board (piece_x T_at_3_5 + int 1 + 0) (piece_y T_at_3_5 + int 1 + 12) \<and>
   cell_ok one_line_board (piece_x T_at_3_5 + int 2 + 0) (piece_y T_at_3_5 + int 1 + 12) \<and>
   canPlacePiece one_line_board T_at_3_5 0 13 = Inr False \<and>
   \<not> cell_ok one_line_board (piece_x T_at_3_5 + int 1 + 0) (piece_y T_at_3_5 + int 1 + 13)"
proof -
  have wf: "wf_board one_line_board" by code_simp
  have yes: "canPlacePiece one_line_board T_at_3_5 0 12 = Inr True" by code_simp
  have no: "canPlacePiece one_line_board T_at_3_5 0 13 = Inr False" by code_simp
  have blocked:
    "\<not> cell_ok one_line_board (piece_x T_at_3_5 + int 1 + 0) (piece_y T_at_3_5 + int 1 + 13)"
    by code_simp
  have rows: "(0::nat) < length (shape T_at_3_5)" "(1::nat) < length (shape T_at_3_5)"
    by code_simp+
  have cols: "(1::nat) < length (shape T_at_3_5 ! 0)" "(0::nat) < length (shape T_at_3_5 ! 1)"
    "(1::nat) < length (shape T_at_3_5 ! 1)" "(2::nat) < length (shape T_at_3_5 ! 1)"
    by code_simp+
  have set: "truthy (shape T_at_3_5 ! 0 ! 1)" "truthy (shape T_at_3_5 ! 1 ! 0)"
    "truthy (shape T_at_3_5 ! 1 ! 1)" "truthy (shape T_at_3_5 ! 1 ! 2)"
    by code_simp+
  from canPlacePiece_iff [OF wf, of T_at_3_5 0 12] yes
  have all: "\<forall>yy < length (shape T_at_3_5). \<forall>xx < length (shape T_at_3_5 ! yy).
      truthy (shape T_at_3_5 ! yy ! xx) \<longrightarrow>
        cell_ok one_line_board (piece_x T_at_3_5 + int xx + 0) (piece_y T_at_3_5 + int yy + 12)"
    by simp
  from all rows cols set wf yes no blocked show ?thesis by blast
qed

text \<open>
  C3 (as amended). For a piece with at least one occupied cell on a well-formed board,
  \<open>getDropPosition\<close> returns, and what it returns is the landing row: the piece's current
  \<open>y\<close> plus the greatest offset \<open>d \<ge> 0\<close> such that \<open>canPlacePiece\<close> holds at every
  offset from 1 to \<open>d\<close>. It fails at \<open>d + 1\<close>, and where the piece fits at its current
  position it fits at every offset from 0 to \<open>d\<close>.
\<close>

theorem getDropPosition_landing_row:
  assumes "wf_board b" "getOccupiedPositions p \<noteq> []"
  shows "\<exists>d\<ge>0. getDropPosition b p = Some (Inr (piece_y p + d)) \<and>
           (\<forall>k. 0 < k \<and> k \<le> d \<longrightarrow> canPlacePiece b p 0 k = Inr True) \<and>
           canPlacePiece b p 0 (d + 1) = Inr False \<and>
           (canPlacePiece b p 0 0 = Inr True \<longrightarrow>
              (\<forall>k. 0 \<le> k \<and> k \<le> d \<longrightarrow> canPlacePiece b p 0 k = Inr True))"
proof -
  from canPlacePiece_below [OF assms] obtain n
    where "canPlacePiece b p 0 (0 + 1 + int n) = Inr False" by auto
  from dropLoop_result [OF assms(1) this] obtain d where d: "0 \<le> d"
    "dropLoop b p (piece_y p + 0) = Some (Inr (piece_y p + d))"
    "\<forall>k. 0 < k \<and> k \<le> d \<longrightarrow> canPlacePiece b p 0 k = Inr True"
    "canPlacePiece b p 0 (d + 1) = Inr False"
    by blast
  have "canPlacePiece b p 0 k = Inr True"
    if "canPlacePiece b p 0 0 = Inr True" "0 \<le> k \<and> k \<le> d" for k
    using that d(3) by (cases "k = 0") auto
  with d show ?thesis
    by (intro exI [of _ d]) (simp add: getDropPosition_def)
qed

theorem getDropPosition_landing_row_witness:
  "wf_board empty_board \<and> getOccupiedPositions T_at_3_5 \<noteq> [] \<and>
   getDropPosition empty_board T_at_3_5 = Some (Inr (piece_y T_at_3_5 + 13)) \<and>
   (\<exists>d\<ge>0. getDropPosition empty_board T_at_3_5 = Some (Inr (piece_y T_at_3_5 + d)) \<and>
      canPlacePiece empty_board T_at_3_5 0 (d + 1) = Inr False)"
proof -
  have wf: "wf_board empty_board" by code_simp
  have cells: "getOccupiedPositions T_at_3_5 \<noteq> []" by code_simp
  have run: "getDropPosition empty_board T_at_3_5 = Some (Inr (piece_y T_at_3_5 + 13))"
    by code_simp
  from getDropPosition_landing_row [OF wf cells] wf cells run show ?thesis by blast
qed

text \<open>
  C3 as stated fails on what is returned: for the T piece at row 5 of the empty board the
  greatest offset is 13 (the piece fits at offset 13 and not at 14), and
  \<open>getDropPosition\<close> returns 18, the row, at which offset the piece does not fit.
\<close>

theorem getDropPosition_offset_counterexample:
  "piece_y T_at_3_5 = 5 \<and>
   getDropPosition empty_board T_at_3_5 = Some (Inr 18) \<and>
   getDropPosition empty_board T_at_3_5 \<noteq> Some (Inr 13) \<and>
   canPlacePiece empty_board T_at_3_5 0 13 = Inr True \<and>
   canPlacePiece empty_board T_at_3_5 0 14 = Inr False \<and>
   canPlacePiece empty_board T_at_3_5 0 18 = Inr False"
  by code_simp

section \<open>Claims about the pieces\<close>

text \<open>
  C2. One \<open>rotate\<close> does not leave the mask of the O piece as it is: rotating the spawn
  mask, whose block is in rows 0 and 1 and columns 1 and 2, gives a mask whose block is in
  rows 1 and 2 and columns 2 and 3. The cells of a new O piece move one column to the
  right and one row down, and at the right wall the rotation is rejected, the only
  wall-kick offset of the O piece being \<open>(0, 0)\<close>.
\<close>

theorem rotate_O_moves_mask:
  "shape (new_Piece TypeO None None)
     = mask_of [[0, 1, 1, 0], [0, 1, 1, 0], [0, 0, 0, 0], [0, 0, 0, 0]] \<and>
   shape (piece_rotate (new_Piece TypeO None None))
     = mask_of [[0, 0, 0, 0], [0, 0, 1, 1], [0, 0, 1, 1], [0, 0, 0, 0]] \<and>
   shape (piece_rotate (new_Piece TypeO None None)) \<noteq> shape (new_Piece TypeO None None) \<and>
   getOccupiedPositions (new_Piece TypeO None None) = [(5, 0), (6, 0), (5, 1), (6, 1)] \<and>
   getOccupiedPositions (piece_rotate (new_Piece TypeO None None))
     = [(6, 1), (7, 1), (6, 2), (7, 2)] \<and>
   getWallKickOffsets (piece_rotate (copy O_at_wall)) 0 1 = [(0, 0)] \<and>
   canPlacePiece (board O_wall_game) O_at_wall 0 0 = Inr True \<and>
   canPlacePiece (board O_wall_game) (piece_rotate O_at_wall) 0 0 = Inr False \<and>
   rotatePiece O_wall_game = Inr O_wall_game"
  by code_simp

text \<open>
  C8 (as amended). For every piece whose mask is 4 x 4, whatever its type and its entries,
  four calls of \<open>rotate\<close> give back the mask, and the rotation state they leave is the one
  the piece had, taken modulo 4: a piece whose rotation state is in 0..3 is the same piece
  after four rotations, and one that starts in state 0, as every new piece does, is in
  state 0 again.
\<close>

theorem rotate_four_times:
  "is4x4 (shape p) \<Longrightarrow>
     shape (piece_rotate (piece_rotate (piece_rotate (piece_rotate p)))) = shape p \<and>
     rotation (piece_rotate (piece_rotate (piece_rotate (piece_rotate p)))) = rotation p mod 4 \<and>
     (rotation p < 4 \<longrightarrow> piece_rotate (piece_rotate (piece_rotate (piece_rotate p))) = p)"
  by (simp add: four_rotations_fields rotate_shape_round_trip)

theorem rotate_four_times_witness:
  "is4x4 (shape (new_Piece TypeT None None)) \<and>
   shape (piece_rotate (piece_rotate (piece_rotate (piece_rotate (new_Piece TypeT None None)))))
     = shape (new_Piece TypeT None None) \<and>
   rotation (piece_rotate (piece_rotate (piece_rotate (piece_rotate (new_Piece TypeT None None)))))
     = 0 \<and>
   piece_rotate (piece_rotate (piece_rotate (piece_rotate (new_Piece TypeT None None))))
     = new_Piece TypeT None None"
proof -
  have sq: "is4x4 (shape (new_Piece TypeT None None))" by code_simp
  have r: "rotation (new_Piece TypeT None None) = 0" by code_simp
  from rotate_four_times [OF sq] r sq show ?thesis by simp
qed

text \<open>
  C8 as stated fails on the rotation state of a piece that is not in state 0: the T piece
  after one rotation is in state 1, its mask is 4 x 4, and four more rotations leave it in
  state 1, not 0.
\<close>

theorem rotate_four_times_state_counterexample:
  "type T_right = TypeT \<and> is4x4 (shape T_right) \<and> rotation T_right = 1 \<and>
   rotation (piece_rotate (piece_rotate (piece_rotate (piece_rotate T_right)))) = 1 \<and>
   rotation (piece_rotate (piece_rotate (piece_rotate (piece_rotate T_right)))) \<noteq> 0"
  by code_simp

section \<open>Claims about the game\<close>

text \<open>
  C5. For a current T piece in rotation state 0, on a well-formed board and while the game
  is not over, \<open>rotatePiece\<close> tests the rotated piece in place and then at the offsets
  \<open>(-1, 0)\<close>, \<open>(-1, 1)\<close>, \<open>(0, -2)\<close>, \<open>(-1, -2)\<close> in this order. At the first test that
  succeeds the current piece becomes the rotated piece moved by that offset and the lock
  timer is reset; if none succeeds the game is unchanged.
\<close>

theorem rotatePiece_T_0_1:
  assumes "wf_board (board g)" "currentPiece g = Some cp" "\<not> isGameOver g"
    "type cp = TypeT" "rotation cp = 0"
  shows "rotatePiece g =
     Inr (let fits = (\<lambda>dx dy. canPlacePiece (board g) (piece_rotate cp) dx dy = Inr True);
              commit = (\<lambda>dx dy. resetLockTimer
                          (g\<lparr> currentPiece := Some ((piece_rotate cp)\<lparr> piece_x := piece_x cp + dx,
                                                                piece_y := piece_y cp + dy \<rparr>) \<rparr>))
          in if fits 0 0 then commit 0 0
             else if fits (-1) 0 then commit (-1) 0
             else if fits (-1) 1 then commit (-1) 1
             else if fits 0 (-2) then commit 0 (-2)
             else if fits (-1) (-2) then commit (-1) (-2)
             else g)"
proof -
  let ?q = "piece_rotate (copy cp)"
  have bool: "\<exists>f. canPlacePiece (board g) q dx dy = Inr f" for q dx dy
    using canPlacePiece_wf [OF assms(1)] by blast
  obtain f0 f1 f2 f3 f4 where f:
    "canPlacePiece (board g) (piece_rotate cp) 0 0 = Inr f0"
    "canPlacePiece (board g) (piece_rotate cp) (-1) 0 = Inr f1"
    "canPlacePiece (board g) (piece_rotate cp) (-1) 1 = Inr f2"
    "canPlacePiece (board g) (piece_rotate cp) 0 (-2) = Inr f3"
    "canPlacePiece (board g) (piece_rotate cp) (-1) (-2) = Inr f4"
    using bool by metis
  have same: "(piece_rotate cp)\<lparr> piece_x := piece_x cp + 0, piece_y := piece_y cp + 0 \<rparr> = piece_rotate cp"
    by (simp add: piece_rotate_def)
  have kicks: "tryWallKicks g cp ?q [(-1, 0), (-1, 1), (0, -2), (-1, -2)] =
      Inr (if f1 then resetLockTimer (g\<lparr> currentPiece := Some ((piece_rotate cp)\<lparr> piece_x := piece_x cp + (-1), piece_y := piece_y cp + 0 \<rparr>) \<rparr>)
           else if f2 then resetLockTimer (g\<lparr> currentPiece := Some ((piece_rotate cp)\<lparr> piece_x := piece_x cp + (-1), piece_y := piece_y cp + 1 \<rparr>) \<rparr>)
           else if f3 then resetLockTimer (g\<lparr> currentPiece := Some ((piece_rotate cp)\<lparr> piece_x := piece_x cp + 0, piece_y := piece_y cp + (-2) \<rparr>) \<rparr>)
           else if f4 then resetLockTimer (g\<lparr> currentPiece := Some ((piece_rotate cp)\<lparr> piece_x := piece_x cp + (-1), piece_y := piece_y cp + (-2) \<rparr>) \<rparr>)
           else g)"
    using f(2-5) by (simp add: canPlacePiece_copy rotated_copy Let_def) (simp add: piece_rotate_def)
  have "rotatePiece g =
      (if f0 then Inr (resetLockTimer (g\<lparr> currentPiece := Some (piece_rotate cp) \<rparr>))
       else tryWallKicks g cp ?q [(-1, 0), (-1, 1), (0, -2), (-1, -2)])"
    using assms(2-5) f(1) kicks_T_0_1 [OF assms(4,5)]
    by (simp add: rotatePiece_def Let_def canPlacePiece_copy)
  then show ?thesis
    unfolding kicks Let_def f using same by simp
qed


theorem rotatePiece_T_0_1_witness:
  "wf_board (board wall_game) \<and> currentPiece wall_game = Some T_at_wall \<and>
   \<not> isGameOver wall_game \<and> type T_at_wall = TypeT \<and> rotation T_at_wall = 0 \<and>
   canPlacePiece (board wall_game) (piece_rotate T_at_wall) 0 0 = Inr False \<and>
   canPlacePiece (board wall_game) (piece_rotate T_at_wall) (-1) 0 = Inr True \<and>
   rotatePiece wall_game =
     Inr (resetLockTimer
            (wall_game\<lparr> currentPiece :=
               Some ((piece_rotate T_at_wall)\<lparr> piece_x := 6, piece_y := 0 \<rparr>) \<rparr>)) \<and>
   rotation (piece_rotate T_at_wall) = 1"
proof -
  have wf: "wf_board (board wall_game)" by code_simp
  have cur: "currentPiece wall_game = Some T_at_wall" by code_simp
  have live: "\<not> isGameOver wall_game" by code_simp
  have ty: "type T_at_wall = TypeT" by code_simp
  have rot: "rotation T_at_wall = 0" by code_simp
  have at: "piece_x T_at_wall = 7" "piece_y T_at_wall = 0" by code_simp+
  have blocked: "canPlacePiece (board wall_game) (piece_rotate T_at_wall) 0 0 = Inr False"
    by code_simp
  have kicked: "canPlacePiece (board wall_game) (piece_rotate T_at_wall) (-1) 0 = Inr True"
    by code_simp
  have state: "rotation (piece_rotate T_at_wall) = 1" by code_simp
  from rotatePiece_T_0_1 [OF wf cur live ty rot]
  have "rotatePiece wall_game =
     Inr (resetLockTimer
            (wall_game\<lparr> currentPiece :=
               Some ((piece_rotate T_at_wall)\<lparr> piece_x := 6, piece_y := 0 \<rparr>) \<rparr>))"
    by (simp add: blocked kicked at)
  with wf cur live ty rot blocked kicked state show ?thesis by blast
qed

text \<open>
  C6. A lock of the current piece on a well-formed board places the piece and clears the
  complete rows. When it clears \<open>n\<close> rows, \<open>n\<close> from 1 to 4, at level \<open>L\<close>, it returns
  with the lines total greater by \<open>n\<close>, the combo counter greater by 1, and the score
  greater by \<open>base(n) * L\<close>, plus \<open>50 * combo * L\<close> for the new combo when that exceeds 1.
  When it clears none it returns with the combo counter 0 and the score and the lines
  total as they were. At level 1 one line with no combo adds 40; at level 3 four lines
  that bring the combo to 2 add 3900.
\<close>

theorem lockPiece_scoring:
  assumes "wf_board (board g)" "0 < height (board g)" "currentPiece g = Some cp"
    "color cp \<noteq> []" "nextPiece g = Some np"
  shows "\<exists>placed n cleared. placePiece (board g) cp = Inr placed \<and>
           clearLines placed = Inr (n, cleared) \<and>
           (1 \<le> n \<and> n \<le> 4 \<longrightarrow>
              (\<exists>g'. lockPiece randomType g = Inr g' \<and>
                 lines g' = lines g + int n \<and>
                 combo g' = combo g + 1 \<and>
                 score g' = score g + spec_base n * level g
                            + (if combo g + 1 > 1 then 50 * (combo g + 1) * level g else 0))) \<and>
           (n = 0 \<longrightarrow>
              (\<exists>g'. lockPiece randomType g = Inr g' \<and>
                 combo g' = 0 \<and> score g' = score g \<and> lines g' = lines g)) \<and>
           (n = 1 \<and> level g = 1 \<and> combo g = 0 \<longrightarrow>
              (\<exists>g'. lockPiece randomType g = Inr g' \<and> score g' = score g + 40)) \<and>
           (n = 4 \<and> level g = 3 \<and> combo g + 1 = 2 \<longrightarrow>
              (\<exists>g'. lockPiece randomType g = Inr g' \<and> score g' = score g + 3900))"
proof -
  obtain placed where placed: "placePiece (board g) cp = Inr placed" "wf_board placed"
    "height placed = height (board g)"
    using placePiece_wf [OF assms(1,4)] by blast
  obtain n cleared where cleared: "clearLines placed = Inr (n, cleared)" "wf_board cleared"
    "height cleared = height placed"
    using clearLines_wf_result [OF placed(2)] by blast
  have h: "0 < height cleared" using assms(2) placed(3) cleared(3) by simp
  have zero: "\<exists>g'. lockPiece randomType g = Inr g' \<and> combo g' = 0 \<and> score g' = score g \<and> lines g' = lines g"
    if "n = 0"
  proof -
    let ?g = "g\<lparr> board := cleared, combo := 0 \<rparr>"
    have "wf_board (board ?g)" "0 < height (board ?g)" "nextPiece ?g = Some np"
      using cleared(2) h assms(5) by simp_all
    from lock_tail [OF this, of randomType] show ?thesis
      using that assms(3) placed(1) cleared(1) by (auto simp: lockPiece_def)
  qed
  have some: "\<exists>g'. lockPiece randomType g = Inr g' \<and>
                 lines g' = lines g + int n \<and>
                 combo g' = combo g + 1 \<and>
                 score g' = score g + spec_base n * level g
                            + (if combo g + 1 > 1 then 50 * (combo g + 1) * level g else 0)"
    if "1 \<le> n \<and> n \<le> 4"
  proof -
    from that have n4: "n \<le> 4" and pos: "0 < n" by simp_all
    from handleLinesCleared_fields [OF n4, of "g\<lparr> board := cleared \<rparr>"]
    obtain g1 where g1: "handleLinesCleared n (g\<lparr> board := cleared \<rparr>) = Inr g1"
      "lines g1 = lines g + int n" "combo g1 = combo g + 1"
      "score g1 = score g + baseScores ! n * level g
                 + (if combo g + 1 > 1 then 50 * (combo g + 1) * level g else 0)"
      "board g1 = cleared" "nextPiece g1 = nextPiece g"
      by auto
    let ?g = "g1\<lparr> lineFlashTimer := lineFlashDuration g1 \<rparr>"
    have "wf_board (board ?g)" "0 < height (board ?g)" "nextPiece ?g = Some np"
      using cleared(2) h assms(5) g1(5,6) by simp_all
    from lock_tail [OF this, of randomType] obtain g' where g':
      "lockPiece randomType g = Inr g'" "score g' = score ?g" "lines g' = lines ?g" "combo g' = combo ?g"
      using pos assms(3) placed(1) cleared(1) g1(1) by (auto simp: lockPiece_def)
    have base: "baseScores ! n = spec_base n"
      using that by (auto simp: baseScores_def numeral_eq_Suc nth_Cons' le_Suc_eq)
    show ?thesis
      using g' g1(2-4) base by (intro exI [of _ g']) simp
  qed
  have single: "\<exists>g'. lockPiece randomType g = Inr g' \<and> score g' = score g + 40"
    if "n = 1 \<and> level g = 1 \<and> combo g = 0"
    using some that by auto
  have four: "\<exists>g'. lockPiece randomType g = Inr g' \<and> score g' = score g + 3900"
    if "n = 4 \<and> level g = 3 \<and> combo g + 1 = 2"
    using some that by auto
  from placed(1) cleared(1) zero some single four show ?thesis by blast
qed


theorem lockPiece_scoring_witness:
  "wf_board (board single_game) \<and> currentPiece single_game = Some I_flat \<and>
   level single_game = 1 \<and> combo single_game = 0 \<and>
   (\<exists>g'. lockPiece TypeS single_game = Inr g' \<and> score g' = score single_game + 40) \<and>
   wf_board (board tetris_game) \<and> currentPiece tetris_game = Some I_upright \<and>
   level tetris_game = 3 \<and> combo tetris_game + 1 = 2 \<and>
   (\<exists>g'. lockPiece TypeS tetris_game = Inr g' \<and> score g' = score tetris_game + 3900)"
proof -
  have wf1: "wf_board (board single_game)" and h1: "0 < height (board single_game)"
    and cur1: "currentPiece single_game = Some I_flat" and col1: "color I_flat \<noteq> []"
    and nxt1: "nextPiece single_game = Some (new_Piece TypeO None None)"
    and lev1: "level single_game = 1" and com1: "combo single_game = 0"
    by code_simp+
  have one: "(case placePiece (board single_game) I_flat of
                Inl e \<Rightarrow> False
              | Inr placed \<Rightarrow> (case clearLines placed of
                                 Inl e \<Rightarrow> False | Inr (n, cleared) \<Rightarrow> n = 1))"
    by code_simp
  from lockPiece_scoring [OF wf1 h1 cur1 col1 nxt1, of TypeS] one lev1 com1
  have r1: "\<exists>g'. lockPiece TypeS single_game = Inr g' \<and> score g' = score single_game + 40"
    by auto
  have wf4: "wf_board (board tetris_game)" and h4: "0 < height (board tetris_game)"
    and cur4: "currentPiece tetris_game = Some I_upright" and col4: "color I_upright \<noteq> []"
    and nxt4: "nextPiece tetris_game = Some (new_Piece TypeO None None)"
    and lev4: "level tetris_game = 3" and com4: "combo tetris_game + 1 = 2"
    by code_simp+
  have four: "(case placePiece (board tetris_game) I_upright of
                Inl e \<Rightarrow> False
              | Inr placed \<Rightarrow> (case clearLines placed of
                                 Inl e \<Rightarrow> False | Inr (n, cleared) \<Rightarrow> n = 4))"
    by code_simp
  from lockPiece_scoring [OF wf4 h4 cur4 col4 nxt4, of TypeS] four lev4 com4
  have r4: "\<exists>g'. lockPiece TypeS tetris_game = Inr g' \<and> score g' = score tetris_game + 3900"
    by auto
  from wf1 cur1 lev1 com1 r1 wf4 cur4 lev4 com4 r4 show ?thesis by blast
qed

text \<open>
  C7. While the game is not over, a hard drop of the current piece (a piece with at least
  one occupied cell and a colour, on a well-formed board, with a next piece waiting)
  goes as follows. \<open>getDropPosition\<close> returns the landing row, which is not above the
  piece's row; the piece at that row cannot move one row further down, and it fits there
  if it fitted where it was. The result of \<open>hardDrop\<close> is that of \<open>lockPiece\<close>, run in
  the same call on the game whose piece is at the landing row and whose score is greater
  by \<open>2 * (landingRow - startRow)\<close>, and it does not depend on the locking flag or the
  lock timer, so no countdown is waited for. The lock writes the piece's colour into
  exactly the cells of the piece at the landing row and leaves every other cell of the
  board as it was, then clears the complete rows. A piece of at most four mask rows on a
  board without a complete row completes at most four rows, and with at most four
  completed rows \<open>hardDrop\<close> returns a game whose board is the cleared board, whose
  current piece is the former next piece, whose next piece is the new draw, whose lock
  state is reset, and whose score is the old score plus the drop points plus the line
  score of the lock; the game is over exactly if the top row of the cleared board is
  occupied or the new piece does not fit.
\<close>

theorem hardDrop_scores_and_locks:
  assumes "wf_board (board g)" "0 < height (board g)" "currentPiece g = Some cp"
    "getOccupiedPositions cp \<noteq> []" "color cp \<noteq> []" "nextPiece g = Some np"
    "\<not> isGameOver g"
  shows "\<exists>landingRow placed cleared g'.
     getDropPosition (board g) cp = Some (Inr landingRow) \<and>
     piece_y cp \<le> landingRow \<and>
     canPlacePiece (board g) (cp\<lparr> piece_y := landingRow \<rparr>) 0 1 = Inr False \<and>
     (canPlacePiece (board g) cp 0 0 = Inr True \<longrightarrow>
        canPlacePiece (board g) (cp\<lparr> piece_y := landingRow \<rparr>) 0 0 = Inr True) \<and>
     hardDrop randomType g =
       Some (lockPiece randomType
               (g\<lparr> currentPiece := Some (cp\<lparr> piece_y := landingRow \<rparr>),
                   score := score g + 2 * (landingRow - piece_y cp) \<rparr>)) \<and>
     (\<forall>l t. hardDrop randomType (g\<lparr> isLocking := l, lockTimer := t \<rparr>)
              = hardDrop randomType g) \<and>
     placePiece (board g) (cp\<lparr> piece_y := landingRow \<rparr>) = Inr placed \<and>
     width placed = width (board g) \<and> height placed = height (board g) \<and>
     linesToFlash placed = linesToFlash (board g) \<and>
     (\<forall>i j. i < height (board g) \<and> j < width (board g) \<longrightarrow>
        grid placed ! i ! j =
          (if (int j, int i) \<in> set (getOccupiedPositions (cp\<lparr> piece_y := landingRow \<rparr>))
           then Some (color cp) else grid (board g) ! i ! j)) \<and>
     clearLines placed = Inr (length (completedLines placed), cleared) \<and>
     cleared =
       (if completedLines placed = [] then placed
        else placed\<lparr> linesToFlash := completedLines placed,
                     grid := replicate (length (completedLines placed))
                               (replicate (width placed) None)
                             @ filter (\<lambda>row. \<not> row_complete row) (grid placed) \<rparr>) \<and>
     (length (shape cp) \<le> 4 \<and> completedLines (board g) = [] \<longrightarrow>
        length (completedLines placed) \<le> 4) \<and>
     (length (completedLines placed) \<le> 4 \<longrightarrow>
        hardDrop randomType g = Some (Inr g') \<and>
        board g' = cleared \<and>
        currentPiece g' = Some np \<and>
        nextPiece g' = Some (new_Piece randomType None None) \<and>
        \<not> isLocking g' \<and> lockTimer g' = 0 \<and>
        lines g' = lines g + int (length (completedLines placed)) \<and>
        combo g' = (if completedLines placed = [] then 0 else combo g + 1) \<and>
        score g' = score g + 2 * (landingRow - piece_y cp)
                   + (if completedLines placed = [] then 0
                      else spec_base (length (completedLines placed)) * level g
                           + (if combo g + 1 > 1 then 50 * (combo g + 1) * level g else 0)) \<and>
        lineFlashTimer g' = (if completedLines placed = [] then lineFlashTimer g
                             else lineFlashDuration g) \<and>
        isGameOver g' = (board_isGameOver cleared = Inr True
                          \<or> canPlacePiece cleared np 0 0 = Inr False))"
proof -
  let ?b = "board g"
  from canPlacePiece_below [OF assms(1,4)] obtain m
    where "canPlacePiece ?b cp 0 (0 + 1 + int m) = Inr False" by auto
  from dropLoop_result [OF assms(1) this] obtain d where d: "0 \<le> d"
    "getDropPosition ?b cp = Some (Inr (piece_y cp + d))"
    "\<forall>k. 0 < k \<and> k \<le> d \<longrightarrow> canPlacePiece ?b cp 0 k = Inr True"
    "canPlacePiece ?b cp 0 (d + 1) = Inr False"
    by (auto simp: getDropPosition_def)
  let ?row = "piece_y cp + d"
  let ?cp = "cp\<lparr> piece_y := ?row \<rparr>"
  let ?g = "g\<lparr> currentPiece := Some ?cp, score := score g + 2 * (?row - piece_y cp) \<rparr>"
  have rest: "canPlacePiece ?b ?cp 0 1 = Inr False"
    using d(4) by (simp add: canPlacePiece_moved [OF assms(1)])
  have fit: "canPlacePiece ?b ?cp 0 0 = Inr True" if "canPlacePiece ?b cp 0 0 = Inr True"
    using that d(1,3) by (cases "d = 0") (auto simp: canPlacePiece_moved [OF assms(1)])
  note hd = hardDrop_as_lockPiece [OF assms(3,7) d(2)]
  have col: "color ?cp \<noteq> []" using assms(5) by simp
  obtain placed where placed: "placePiece ?b ?cp = Inr placed" "wf_board placed"
    "width placed = width ?b" "height placed = height ?b"
    using placePiece_wf [OF assms(1) col] by blast
  have flash: "linesToFlash placed = linesToFlash ?b"
    using placeLoop_linesToFlash placed(1) by (simp add: placePiece_def)
  have cells: "grid placed ! i ! j =
          (if (int j, int i) \<in> set (getOccupiedPositions ?cp)
           then Some (color cp) else grid ?b ! i ! j)"
    if "i < height ?b \<and> j < width ?b" for i j
    using placeLoop_cells [OF assms(1) col placed(1) [unfolded placePiece_def], of i j] that
    by simp
  let ?n = "length (completedLines placed)"
  let ?cleared = "if completedLines placed = [] then placed
        else placed\<lparr> linesToFlash := completedLines placed,
                     grid := replicate ?n (replicate (width placed) None)
                             @ filter (\<lambda>row. \<not> row_complete row) (grid placed) \<rparr>"
  have clear: "clearLines placed = Inr (?n, ?cleared)"
    by (rule clearLines_wf [OF placed(2)])
  have four: "?n \<le> 4" if "length (shape cp) \<le> 4 \<and> completedLines ?b = []"
    using completed_after_place [OF assms(1) col placed(1)] that by simp
  have lock: "\<exists>g'. lockPiece randomType ?g = Inr g' \<and>
      board g' = ?cleared \<and> currentPiece g' = Some np \<and>
      nextPiece g' = Some (new_Piece randomType None None) \<and>
      \<not> isLocking g' \<and> lockTimer g' = 0 \<and>
      lines g' = lines ?g + int ?n \<and>
      combo g' = (if ?n = 0 then 0 else combo ?g + 1) \<and>
      score g' = score ?g + (if ?n = 0 then 0
                            else spec_base ?n * level ?g
                                 + (if combo ?g + 1 > 1 then 50 * (combo ?g + 1) * level ?g else 0)) \<and>
      lineFlashTimer g' = (if ?n = 0 then lineFlashTimer ?g else lineFlashDuration ?g) \<and>
      isGameOver g' = (isGameOver ?g \<or> board_isGameOver ?cleared = Inr True
                        \<or> canPlacePiece ?cleared np 0 0 = Inr False)"
    if "?n \<le> 4"
    by (rule lockPiece_result [where cp = ?cp and placed = placed])
       (use assms placed clear that in simp_all)
  show ?thesis
  proof (cases "?n \<le> 4")
    case True
    from lock [OF True] obtain g' where g': "lockPiece randomType ?g = Inr g'"
      "board g' = ?cleared" "currentPiece g' = Some np"
      "nextPiece g' = Some (new_Piece randomType None None)"
      "\<not> isLocking g'" "lockTimer g' = 0"
      "lines g' = lines ?g + int ?n"
      "combo g' = (if ?n = 0 then 0 else combo ?g + 1)"
      "score g' = score ?g + (if ?n = 0 then 0
                            else spec_base ?n * level ?g
                                 + (if combo ?g + 1 > 1 then 50 * (combo ?g + 1) * level ?g else 0))"
      "lineFlashTimer g' = (if ?n = 0 then lineFlashTimer ?g else lineFlashDuration ?g)"
      "isGameOver g' = (isGameOver ?g \<or> board_isGameOver ?cleared = Inr True
                        \<or> canPlacePiece ?cleared np 0 0 = Inr False)"
      by blast
    have run: "hardDrop randomType g = Some (Inr g')"
      using hd(1) g'(1) by simp
    show ?thesis
      apply (rule exI [of _ ?row], rule exI [of _ placed], rule exI [of _ ?cleared],
             rule exI [of _ g'])
      using d(1,2) rest fit hd placed(1,3,4) flash cells clear four run g'(2-11) assms(7)
      by (simp del: spec_base.simps)
  next
    case False
    with four have many: "\<not> (length (shape cp) \<le> 4 \<and> completedLines ?b = [])"
      by blast
    show ?thesis
      apply (rule exI [of _ ?row], rule exI [of _ placed], rule exI [of _ ?cleared],
             rule exI [of _ g])
      using d(1,2) rest fit hd placed(1,3,4) flash cells clear many False
      by (simp del: spec_base.simps)
  qed
qed


theorem hardDrop_scores_and_locks_witness:
  "wf_board (board fresh_game) \<and>
   currentPiece fresh_game = Some (new_Piece TypeT None None) \<and>
   nextPiece fresh_game = Some (new_Piece TypeO None None) \<and>
   \<not> isGameOver fresh_game \<and>
   getDropPosition (board fresh_game) (new_Piece TypeT None None) = Some (Inr 18) \<and>
   placePiece (board fresh_game) ((new_Piece TypeT None None)\<lparr> piece_y := 18 \<rparr>)
     = Inr dropped_board \<and>
   grid dropped_board ! 18 ! 4 = Some ''#aa00ff'' \<and>
   grid dropped_board ! 19 ! 3 = Some ''#aa00ff'' \<and>
   grid dropped_board ! 19 ! 4 = Some ''#aa00ff'' \<and>
   grid dropped_board ! 19 ! 5 = Some ''#aa00ff'' \<and>
   grid dropped_board ! 18 ! 3 = None \<and>
   (\<exists>g'. hardDrop TypeS fresh_game = Some (Inr g') \<and>
      board g' = dropped_board \<and>
      currentPiece g' = Some (new_Piece TypeO None None) \<and>
      nextPiece g' = Some (new_Piece TypeS None None) \<and>
      score g' = 36 \<and> lines g' = 0 \<and> combo g' = 0 \<and>
      \<not> isLocking g' \<and> lockTimer g' = 0 \<and> \<not> isGameOver g') \<and>
   hardDrop TypeS fresh_game = Some (Inr dropped_game) \<and>
   placePiece (board gap_drop_game) ((new_Piece TypeI None None)\<lparr> piece_y := 18 \<rparr>)
     = Inr filled_board \<and>
   completedLines filled_board = [19] \<and>
   (\<exists>g'. hardDrop TypeS gap_drop_game = Some (Inr g') \<and>
      grid (board g') = grid empty_board \<and> linesToFlash (board g') = [19] \<and>
      currentPiece g' = Some (new_Piece TypeO None None) \<and>
      score g' = 76 \<and> lines g' = 1 \<and> combo g' = 1 \<and> lineFlashTimer g' = 300 \<and>
      \<not> isLocking g' \<and> \<not> isGameOver g') \<and>
   hardDrop TypeS gap_drop_game = Some (Inr gap_dropped_game)"
proof -
  let ?T = "new_Piece TypeT None None" and ?O = "new_Piece TypeO None None"
  let ?I = "new_Piece TypeI None None"
  have wf: "wf_board (board fresh_game)" and h: "0 < height (board fresh_game)"
    and cur: "currentPiece fresh_game = Some ?T"
    and cells: "getOccupiedPositions ?T \<noteq> []" and col: "color ?T \<noteq> []"
    and nxt: "nextPiece fresh_game = Some ?O"
    and live: "\<not> isGameOver fresh_game"
    and row: "getDropPosition (board fresh_game) ?T = Some (Inr 18)"
    and start: "piece_y ?T = 0"
    and put: "placePiece (board fresh_game) (?T\<lparr> piece_y := 18 \<rparr>) = Inr dropped_board"
    and none: "completedLines dropped_board = []"
    and top: "board_isGameOver dropped_board = Inr False"
    and fits: "canPlacePiece dropped_board ?O 0 0 = Inr True"
    and vals: "score fresh_game = 0" "lines fresh_game = 0" "lineFlashTimer fresh_game = 0"
    by code_simp+
  have shown: "grid dropped_board ! 18 ! 4 = Some ''#aa00ff''"
    "grid dropped_board ! 19 ! 3 = Some ''#aa00ff''"
    "grid dropped_board ! 19 ! 4 = Some ''#aa00ff''"
    "grid dropped_board ! 19 ! 5 = Some ''#aa00ff''"
    "grid dropped_board ! 18 ! 3 = None"
    by code_simp+
  have all1: "hardDrop TypeS fresh_game = Some (Inr dropped_game)" by code_simp
  from hardDrop_scores_and_locks [OF wf h cur cells col nxt live, of TypeS]
  obtain landingRow placed cleared g' where r:
    "getDropPosition (board fresh_game) ?T = Some (Inr landingRow)"
    "placePiece (board fresh_game) (?T\<lparr> piece_y := landingRow \<rparr>) = Inr placed"
    "cleared = (if completedLines placed = [] then placed
        else placed\<lparr> linesToFlash := completedLines placed,
                     grid := replicate (length (completedLines placed))
                               (replicate (width placed) None)
                             @ filter (\<lambda>row. \<not> row_complete row) (grid placed) \<rparr>)"
    "length (completedLines placed) \<le> 4 \<longrightarrow>
        hardDrop TypeS fresh_game = Some (Inr g') \<and>
        board g' = cleared \<and>
        currentPiece g' = Some ?O \<and>
        nextPiece g' = Some (new_Piece TypeS None None) \<and>
        \<not> isLocking g' \<and> lockTimer g' = 0 \<and>
        lines g' = lines fresh_game + int (length (completedLines placed)) \<and>
        combo g' = (if completedLines placed = [] then 0 else combo fresh_game + 1) \<and>
        score g' = score fresh_game + 2 * (landingRow - piece_y ?T)
                   + (if completedLines placed = [] then 0
                      else spec_base (length (completedLines placed)) * level fresh_game
                           + (if combo fresh_game + 1 > 1
                              then 50 * (combo fresh_game + 1) * level fresh_game else 0)) \<and>
        lineFlashTimer g' = (if completedLines placed = [] then lineFlashTimer fresh_game
                             else lineFlashDuration fresh_game) \<and>
        isGameOver g' = (board_isGameOver cleared = Inr True
                          \<or> canPlacePiece cleared ?O 0 0 = Inr False)"
    by blast
  from r(1) row have lr: "landingRow = 18" by simp
  with r(2) put have pl: "placed = dropped_board" by simp
  with r(3) none have cl: "cleared = dropped_board" by simp
  from r(4) pl cl lr none top fits start vals
  have ex1: "\<exists>g'. hardDrop TypeS fresh_game = Some (Inr g') \<and>
      board g' = dropped_board \<and>
      currentPiece g' = Some ?O \<and>
      nextPiece g' = Some (new_Piece TypeS None None) \<and>
      score g' = 36 \<and> lines g' = 0 \<and> combo g' = 0 \<and>
      \<not> isLocking g' \<and> lockTimer g' = 0 \<and> \<not> isGameOver g'"
    by (intro exI [of _ g']) simp
  have wf2: "wf_board (board gap_drop_game)" and h2: "0 < height (board gap_drop_game)"
    and cur2: "currentPiece gap_drop_game = Some ?I"
    and cells2: "getOccupiedPositions ?I \<noteq> []" and col2: "color ?I \<noteq> []"
    and nxt2: "nextPiece gap_drop_game = Some ?O"
    and live2: "\<not> isGameOver gap_drop_game"
    and row2: "getDropPosition (board gap_drop_game) ?I = Some (Inr 18)"
    and start2: "piece_y ?I = 0"
    and put2: "placePiece (board gap_drop_game) (?I\<lparr> piece_y := 18 \<rparr>) = Inr filled_board"
    and one: "completedLines filled_board = [19]"
    and after: "grid (filled_board\<lparr> linesToFlash := [19],
                     grid := replicate 1 (replicate (width filled_board) None)
                             @ filter (\<lambda>row. \<not> row_complete row) (grid filled_board) \<rparr>)
                = grid empty_board"
    and top2: "board_isGameOver (filled_board\<lparr> linesToFlash := [19],
                     grid := replicate 1 (replicate (width filled_board) None)
                             @ filter (\<lambda>row. \<not> row_complete row) (grid filled_board) \<rparr>)
                = Inr False"
    and fits2: "canPlacePiece (filled_board\<lparr> linesToFlash := [19],
                     grid := replicate 1 (replicate (width filled_board) None)
                             @ filter (\<lambda>row. \<not> row_complete row) (grid filled_board) \<rparr>)
                  ?O 0 0 = Inr True"
    and vals2: "score gap_drop_game = 0" "lines gap_drop_game = 0" "combo gap_drop_game = 0"
      "level gap_drop_game = 1" "lineFlashDuration gap_drop_game = 300"
    by code_simp+
  have all2: "hardDrop TypeS gap_drop_game = Some (Inr gap_dropped_game)" by code_simp
  from hardDrop_scores_and_locks [OF wf2 h2 cur2 cells2 col2 nxt2 live2, of TypeS]
  obtain landingRow2 placed2 cleared2 g2 where s:
    "getDropPosition (board gap_drop_game) ?I = Some (Inr landingRow2)"
    "placePiece (board gap_drop_game) (?I\<lparr> piece_y := landingRow2 \<rparr>) = Inr placed2"
    "cleared2 = (if completedLines placed2 = [] then placed2
        else placed2\<lparr> linesToFlash := completedLines placed2,
                     grid := replicate (length (completedLines placed2))
                               (replicate (width placed2) None)
                             @ filter (\<lambda>row. \<not> row_complete row) (grid placed2) \<rparr>)"
    "length (completedLines placed2) \<le> 4 \<longrightarrow>
        hardDrop TypeS gap_drop_game = Some (Inr g2) \<and>
        board g2 = cleared2 \<and>
        currentPiece g2 = Some ?O \<and>
        nextPiece g2 = Some (new_Piece TypeS None None) \<and>
        \<not> isLocking g2 \<and> lockTimer g2 = 0 \<and>
        lines g2 = lines gap_drop_game + int (length (completedLines placed2)) \<and>
        combo g2 = (if completedLines placed2 = [] then 0 else combo gap_drop_game + 1) \<and>
        score g2 = score gap_drop_game + 2 * (landingRow2 - piece_y ?I)
                   + (if completedLines placed2 = [] then 0
                      else spec_base (length (completedLines placed2)) * level gap_drop_game
                           + (if combo gap_drop_game + 1 > 1
                              then 50 * (combo gap_drop_game + 1) * level gap_drop_game else 0)) \<and>
        lineFlashTimer g2 = (if completedLines placed2 = [] then lineFlashTimer gap_drop_game
                             else lineFlashDuration gap_drop_game) \<and>
        isGameOver g2 = (board_isGameOver cleared2 = Inr True
                          \<or> canPlacePiece cleared2 ?O 0 0 = Inr False)"
    by blast
  from s(1) row2 have lr2: "landingRow2 = 18" by simp
  with s(2) put2 have pl2: "placed2 = filled_board" by simp
  with s(3) one have cl2: "cleared2 = filled_board\<lparr> linesToFlash := [19],
                     grid := replicate 1 (replicate (width filled_board) None)
                             @ filter (\<lambda>row. \<not> row_complete row) (grid filled_board) \<rparr>"
    by simp
  from s(4) pl2 lr2 one start2 vals2 top2 fits2 after
  have ex2: "\<exists>g'. hardDrop TypeS gap_drop_game = Some (Inr g') \<and>
      grid (board g') = grid empty_board \<and> linesToFlash (board g') = [19] \<and>
      currentPiece g' = Some ?O \<and>
      score g' = 76 \<and> lines g' = 1 \<and> combo g' = 1 \<and> lineFlashTimer g' = 300 \<and>
      \<not> isLocking g' \<and> \<not> isGameOver g'"
    unfolding cl2 by (intro exI [of _ g2]) simp
  from wf cur nxt live row put shown ex1 all1 put2 one ex2 all2 show ?thesis
    by blast
qed


text \<open>
  C9. In a game whose level is \<open>floor(lines / 10) + 1\<close>, as it is after the constructor and
  after \<open>restart\<close>, a clear of 1 to 4 lines leaves the level equal to
  \<open>floor(lines / 10) + 1\<close> for the new lines total and not below the old level. When the
  level has grown the drop interval is \<open>max(1, 48 - (level - 1) * 5) / 60 * 1000\<close>
  milliseconds for the new level, otherwise it is unchanged. When the lines total reaches
  10 the level is 2 and the drop interval is \<open>max(1, 48 - 5) / 60 * 1000\<close>, within a tenth
  of 716.7. The quotient is the exact one; the source computes it in floating point.
\<close>

theorem level_after_line_clear:
  assumes "level_of_lines g" "0 < n" "n \<le> 4"
  shows "\<exists>g'. handleLinesCleared n g = Inr g' \<and>
           lines g' = lines g + int n \<and>
           level g' = lines g' div 10 + 1 \<and>
           level g \<le> level g' \<and>
           (level g < level g' \<longrightarrow>
              dropInterval g' = of_int (max 1 (48 - (level g' - 1) * 5)) / 60 * 1000) \<and>
           (level g' = level g \<longrightarrow> dropInterval g' = dropInterval g) \<and>
           (lines g' = 10 \<longrightarrow>
              level g' = 2 \<and> dropInterval g' = of_int (max 1 (48 - 5)) / 60 * 1000 \<and>
              \<bar>dropInterval g' - 7167 / 10\<bar> < 1 / 10)"
proof -
  from handleLinesCleared_fields [OF assms(3), of g] obtain g' where g':
    "handleLinesCleared n g = Inr g'" "lines g' = lines g + int n"
    "level g' = max (level g) ((lines g + int n) div 10 + 1)"
    "dropInterval g' = (if level g < (lines g + int n) div 10 + 1
                         then of_int (max 1 (48 - ((lines g + int n) div 10 + 1 - 1) * 5)) / 60 * 1000
                         else dropInterval g)"
    by blast
  have inv: "0 \<le> lines g" "level g = lines g div 10 + 1"
    using assms(1) by (simp_all add: level_of_lines_def)
  have mono: "lines g div 10 \<le> (lines g + int n) div 10"
    by (rule zdiv_mono1) simp_all
  have lev: "level g' = lines g' div 10 + 1"
    using g'(2,3) inv mono by simp
  have ten: "level g' = 2 \<and> dropInterval g' = of_int (max 1 (48 - 5)) / 60 * 1000 \<and>
              \<bar>dropInterval g' - 7167 / 10\<bar> < 1 / 10" if "lines g' = 10"
  proof -
    from that g'(2) assms(2) inv(1) have "lines g < 10" "0 \<le> lines g" by simp_all
    then have "lines g div 10 = 0" by simp
    with inv have "level g = 1" by simp
    with that g'(2-4) show ?thesis by simp
  qed
  show ?thesis
    using g' lev inv mono ten by (intro exI [of _ g']) auto
qed


theorem level_after_line_clear_witness:
  "level_of_lines nine_lines_game \<and> lines nine_lines_game = 9 \<and> level nine_lines_game = 1 \<and>
   (\<exists>g'. handleLinesCleared 1 nine_lines_game = Inr g' \<and> lines g' = 10 \<and> level g' = 2 \<and>
      dropInterval g' = 2150 / 3)"
proof -
  have inv: "level_of_lines nine_lines_game" and l: "lines nine_lines_game = 9"
    and lv: "level nine_lines_game = 1"
    by code_simp+
  from level_after_line_clear [OF inv, of 1] l
  have "\<exists>g'. handleLinesCleared 1 nine_lines_game = Inr g' \<and> lines g' = 10 \<and> level g' = 2 \<and>
      dropInterval g' = 2150 / 3"
    by auto
  with inv l lv show ?thesis by blast
qed

end
